theory Spec2Isabelle
  imports Main "HOL-Library.Sublist"
begin

section \<open>The OpenAPI stub generator (index.js)\<close>

text \<open>
  The program is one asynchronous function: it validates the \<^verbatim>\<open>-f\<close> argument, scans the
  spec file for a version line, creates a versioned directory tree, registers scripts in a
  package manifest, relocates files and runs external generators. The model below follows
  it statement by statement. Strings are \<open>char list\<close>s, one \<open>char\<close> per UTF-16 code unit,
  so the model covers text whose code units are below 256 (ASCII and Latin-1); the file
  system is an explicit store; every \<^verbatim>\<open>return\<close> and every rejected promise is a value of
  the result.
\<close>

subsection \<open>String primitives\<close>

text \<open>\<^verbatim>\<open>String.prototype.indexOf\<close>: the position of the first occurrence of a pattern.\<close>

fun indexOf :: "string \<Rightarrow> string \<Rightarrow> nat option" where
  "indexOf pat [] = (if pat = [] then Some 0 else None)"
| "indexOf pat (c # cs) =
     (if prefix pat (c # cs) then Some 0 else map_option Suc (indexOf pat cs))"

text \<open>\<^verbatim>\<open>String.prototype.includes\<close>.\<close>

definition includes_str :: "string \<Rightarrow> string \<Rightarrow> bool" where
  "includes_str s pat = (indexOf pat s \<noteq> None)"

text \<open>
  The replacement text of \<^verbatim>\<open>String.prototype.replace\<close> is a template: \<^verbatim>\<open>$$\<close> stands for a
  dollar sign, \<^verbatim>\<open>$&\<close> for the matched text, \<^verbatim>\<open>$`\<close> for the text before the match and
  \<^verbatim>\<open>$'\<close> for the text after it. With a string pattern there are no capture groups, so
  every other character stands for itself. Arguments: matched text, text before, text
  after, template.
\<close>

fun getSubstitution :: "string \<Rightarrow> string \<Rightarrow> string \<Rightarrow> string \<Rightarrow> string" where
  "getSubstitution m b a [] = []"
| "getSubstitution m b a [c] = [c]"
| "getSubstitution m b a (c # d # t) =
     (if c = CHR ''$'' \<and> d = CHR ''$'' then CHR ''$'' # getSubstitution m b a t
      else if c = CHR ''$'' \<and> d = CHR ''&'' then m @ getSubstitution m b a t
      else if c = CHR ''$'' \<and> d = CHR 0x60 then b @ getSubstitution m b a t
      else if c = CHR ''$'' \<and> d = CHR 0x27 then a @ getSubstitution m b a t
      else c # getSubstitution m b a (d # t))"

text \<open>
  \<^verbatim>\<open>s.replace(pat, rep)\<close> with a string pattern: only the first occurrence is replaced, and
  a string without the pattern is returned as it is.
\<close>

definition replace_str :: "string \<Rightarrow> string \<Rightarrow> string \<Rightarrow> string" where
  "replace_str s pat rep =
     (case indexOf pat s of
        None \<Rightarrow> s
      | Some i \<Rightarrow>
          (let b = take i s; a = drop (i + length pat) s
           in b @ getSubstitution pat b a rep @ a))"

text \<open>
  \<^verbatim>\<open>s.replaceAll(c, rep)\<close> for a pattern of one character and a replacement without
  template patterns, which is how the source uses it (\<^verbatim>\<open>replaceAll('\'', "")\<close> and
  \<^verbatim>\<open>replaceAll('.', '-')\<close>).
\<close>

definition replaceAll_chr :: "char \<Rightarrow> string \<Rightarrow> string \<Rightarrow> string" where
  "replaceAll_chr c rep s = concat (map (\<lambda>x. if x = c then rep else [x]) s)"

text \<open>
  \<^verbatim>\<open>String.prototype.trim\<close> removes white space and line terminators at both ends.
  Among the code units below 256 these are tab, line feed, vertical tab, form feed,
  carriage return, space and the no-break space U+00A0.
\<close>

definition is_space :: "char \<Rightarrow> bool" where
  "is_space c =
     (c \<in> {CHR 0x09, CHR 0x0A, CHR 0x0B, CHR 0x0C, CHR 0x0D, CHR 0x20, CHR 0xA0})"

definition trim :: "string \<Rightarrow> string" where
  "trim s = rev (dropWhile is_space (rev (dropWhile is_space s)))"

text \<open>
  \<^verbatim>\<open>path.extname\<close> (POSIX): trailing separators are ignored; the extension runs from the
  last dot of the last path portion to its end; it is empty when that portion has no dot,
  when its only dot is its first character, or when the portion is \<^verbatim>\<open>..\<close>.
\<close>

definition extname :: "string \<Rightarrow> string" where
  "extname p =
     (let r = dropWhile (\<lambda>c. c = CHR ''/'') (rev p);
          b = rev (takeWhile (\<lambda>c. c \<noteq> CHR ''/'') r);
          e = rev (takeWhile (\<lambda>c. c \<noteq> CHR ''.'') (rev b))
      in if CHR ''.'' \<notin> set b \<or> Suc (length e) = length b \<or> b = ''..'' then []
         else CHR ''.'' # e)"

subsection \<open>Version extraction (lines 47 to 55)\<close>

text \<open>
  Line 51: \<^verbatim>\<open>'v' + line.replace('version:', '').replaceAll('\'', "").replaceAll('.', '-').trim()\<close>.
\<close>

definition version_of_line :: "string \<Rightarrow> string" where
  "version_of_line line =
     CHR ''v'' # trim (replaceAll_chr (CHR ''.'') ''-''
                        (replaceAll_chr (CHR 0x27) [] (replace_str line ''version:'' [])))"

datatype level = Info | Err

type_synonym message = "level \<times> string"

text \<open>
  The callback given to \<^verbatim>\<open>eachLine\<close> runs on each line in turn, with \<^verbatim>\<open>versionNumber\<close> as
  the variable it assigns; returning \<^verbatim>\<open>false\<close> stops the reading. The second component
  collects what the callback prints.
\<close>

fun eachLine :: "string list \<Rightarrow> string \<times> message list \<Rightarrow> string \<times> message list" where
  "eachLine [] (versionNumber, out) = (versionNumber, out)"
| "eachLine (line # rest) (versionNumber, out) =
     (if includes_str line ''version''
      then (version_of_line line,
            out @ [(Info, ''Version Number Found: '' @ version_of_line line)])
      else eachLine rest (versionNumber, out))"

subsection \<open>The file system\<close>

text \<open>
  A location is the list of the names from the root down to a node. A regular file is held
  as the list of its lines, the way the line reader delivers them; a package manifest is
  held parsed, as its table of scripts in order (nothing else of a manifest matters to this
  program). The store is an association list in which the first entry of a location counts.
\<close>

type_synonym loc = "string list"

datatype content = Text "string list" | Manifest "(string \<times> string) list"

datatype node = Dir | File content

type_synonym fsys = "(loc \<times> node) list"

datatype error =
    ENOENT | ENOTDIR | EISDIR | EEXIST | EINVAL | ENOTEMPTY
  | SyntaxError | MissingKeyOrValue | ScriptExists string | ExecFailed string

text \<open>A path string is cut at every separator; empty portions are kept and skipped later.\<close>

fun split_path :: "string \<Rightarrow> string list" where
  "split_path [] = [] # []"
| "split_path (c # cs) =
     (if c = CHR ''/'' then [] # split_path cs
      else (case split_path cs of [] \<Rightarrow> [c] # [] | p # ps \<Rightarrow> (c # p) # ps))"

text \<open>
  Path resolution as the operating system does it: every portion is looked up in the
  directory reached so far, which must exist and be a directory, also for \<^verbatim>\<open>.\<close> and
  \<^verbatim>\<open>..\<close>. The location of the last portion is returned whether it exists or not.
\<close>

fun walk :: "fsys \<Rightarrow> loc \<Rightarrow> string list \<Rightarrow> error + loc" where
  "walk t cur [] = Inr cur"
| "walk t cur (c # cs) =
     (case map_of t cur of
        None \<Rightarrow> Inl ENOENT
      | Some (File x) \<Rightarrow> Inl ENOTDIR
      | Some Dir \<Rightarrow>
          (if c = [] \<or> c = ''.'' then walk t cur cs
           else if c = ''..'' then walk t (butlast cur) cs
           else walk t (cur @ [c]) cs))"

definition start_of :: "loc \<Rightarrow> string \<Rightarrow> loc" where
  "start_of wd p = (if take 1 p = ''/'' then [] else wd)"

definition resolve :: "fsys \<Rightarrow> loc \<Rightarrow> string \<Rightarrow> error + loc" where
  "resolve t wd p = (if p = [] then Inl ENOENT else walk t (start_of wd p) (split_path p))"

text \<open>\<^verbatim>\<open>path.resolve\<close>: the same portions folded without looking at the file system.\<close>

fun normalize :: "loc \<Rightarrow> string list \<Rightarrow> loc" where
  "normalize cur [] = cur"
| "normalize cur (c # cs) =
     (if c = [] \<or> c = ''.'' then normalize cur cs
      else if c = ''..'' then normalize (butlast cur) cs
      else normalize (cur @ [c]) cs)"

definition path_resolve :: "loc \<Rightarrow> string \<Rightarrow> loc" where
  "path_resolve wd p = normalize (start_of wd p) (split_path p)"

text \<open>
  \<^verbatim>\<open>path.dirname\<close> (POSIX): trailing separators are skipped, then the last portion and
  the one separator before it are cut off. The first character is never looked at as a
  separator to cut at, so a path with nothing but its root to the left gives the root.
\<close>

definition dirname :: "string \<Rightarrow> string" where
  "dirname p =
     (let r = dropWhile (\<lambda>c. c = CHR ''/'') (rev p);
          d = dropWhile (\<lambda>c. c \<noteq> CHR ''/'') r
      in if tl d = [] then (if take 1 p = ''/'' then ''/'' else ''.'')
         else if take 1 p = ''/'' \<and> length (tl d) = 1 then ''//''
         else rev (tl d))"

text \<open>\<^verbatim>\<open>fs.existsSync\<close>: true when the path resolves to a node of any kind, false otherwise.\<close>

definition existsSync :: "fsys \<Rightarrow> loc \<Rightarrow> string \<Rightarrow> bool" where
  "existsSync t wd p =
     (case resolve t wd p of Inl e \<Rightarrow> False | Inr l \<Rightarrow> map_of t l \<noteq> None)"

text \<open>
  Recursive directory creation below a location: missing directories are created on the
  way down, existing ones are entered, and a regular file in the way is an error.
\<close>

fun mkdirs :: "fsys \<Rightarrow> loc \<Rightarrow> string list \<Rightarrow> error option \<times> fsys" where
  "mkdirs t cur [] = (None, t)"
| "mkdirs t cur (c # cs) =
     (case map_of t (cur @ [c]) of
        None \<Rightarrow> mkdirs ((cur @ [c], Dir) # t) (cur @ [c]) cs
      | Some Dir \<Rightarrow> mkdirs t (cur @ [c]) cs
      | Some (File x) \<Rightarrow> (Some (if cs = [] then EEXIST else ENOTDIR), t))"

text \<open>The \<^verbatim>\<open>make-dir\<close> package: \<^verbatim>\<open>fs.mkdir(path.resolve(p), {recursive: true})\<close>.\<close>

definition mkdir_p :: "fsys \<Rightarrow> loc \<Rightarrow> string \<Rightarrow> error option \<times> fsys" where
  "mkdir_p t wd p = mkdirs t [] (path_resolve wd p)"

text \<open>
  \<^verbatim>\<open>fsPromises.copyFile(src, dest)\<close>: the source must be a regular file; the directory of
  the destination must exist; an existing regular file at the destination is overwritten.
\<close>

definition copy_file :: "fsys \<Rightarrow> loc \<Rightarrow> string \<Rightarrow> string \<Rightarrow> error option \<times> fsys" where
  "copy_file t wd src dst =
     (case resolve t wd src of
        Inl e \<Rightarrow> (Some e, t)
      | Inr s \<Rightarrow>
          (case map_of t s of
             None \<Rightarrow> (Some ENOENT, t)
           | Some Dir \<Rightarrow> (Some EISDIR, t)
           | Some (File x) \<Rightarrow>
               (case resolve t wd dst of
                  Inl e \<Rightarrow> (Some e, t)
                | Inr d \<Rightarrow>
                    (case map_of t d of
                       Some Dir \<Rightarrow> (Some EISDIR, t)
                     | _ \<Rightarrow> (None, (d, File x) # t)))))"

text \<open>
  \<^verbatim>\<open>fsPromises.rename(oldPath, newPath)\<close>: the old path must exist. A node moves with
  everything below it and replaces what was at the new path.
\<close>

definition has_children :: "fsys \<Rightarrow> loc \<Rightarrow> bool" where
  "has_children t d = list_ex (\<lambda>(p, n). strict_prefix d p) t"

definition move_node :: "fsys \<Rightarrow> loc \<Rightarrow> loc \<Rightarrow> fsys" where
  "move_node t s d =
     map (\<lambda>(p, n). if prefix s p then (d @ drop (length s) p, n) else (p, n))
       (filter (\<lambda>(p, n). \<not> prefix d p) t)"

definition rename_path :: "fsys \<Rightarrow> loc \<Rightarrow> string \<Rightarrow> string \<Rightarrow> error option \<times> fsys" where
  "rename_path t wd src dst =
     (case resolve t wd src of
        Inl e \<Rightarrow> (Some e, t)
      | Inr s \<Rightarrow>
          (case map_of t s of
             None \<Rightarrow> (Some ENOENT, t)
           | Some n \<Rightarrow>
               (case resolve t wd dst of
                  Inl e \<Rightarrow> (Some e, t)
                | Inr d \<Rightarrow>
                    (if s = d then (None, t)
                     else if prefix s d then (Some EINVAL, t)
                     else (case (n, map_of t d) of
                             (File x, Some Dir) \<Rightarrow> (Some EISDIR, t)
                           | (Dir, Some (File y)) \<Rightarrow> (Some ENOTDIR, t)
                           | (Dir, Some Dir) \<Rightarrow>
                               (if has_children t d then (Some ENOTEMPTY, t)
                                else (None, move_node t s d))
                           | _ \<Rightarrow> (None, move_node t s d))))))"

text \<open>
  The \<^verbatim>\<open>move-file\<close> package with its default options: create the directory of the
  destination, then rename.
\<close>

definition move_file :: "fsys \<Rightarrow> loc \<Rightarrow> string \<Rightarrow> string \<Rightarrow> error option \<times> fsys" where
  "move_file t wd src dst =
     (case mkdir_p t wd (dirname dst) of
        (Some e, t') \<Rightarrow> (Some e, t')
      | (None, t') \<Rightarrow> rename_path t' wd src dst)"

subsection \<open>The host: working directory and external commands\<close>

text \<open>
  What a shell command does to the file system is not this program's code: it is a
  parameter, as is the way a manifest reads as text lines. \<open>cwd\<close> is the working
  directory of the process, which the program never changes.
\<close>

record env =
  cwd :: loc
  exec_cmd :: "string \<Rightarrow> fsys \<Rightarrow> error + fsys"
  manifest_lines :: "(string \<times> string) list \<Rightarrow> string list"

text \<open>The calls with side effects that a run makes, in order, with their arguments.\<close>

datatype call =
    MakeDir string
  | Exec string
  | AddScript string string
  | CopyFile string string
  | Rename string string
  | MoveFile string string

record state =
  fs :: fsys
  console :: "message list"
  calls :: "call list"

definition say :: "level \<Rightarrow> string \<Rightarrow> state \<Rightarrow> state" where
  "say l msg st = st\<lparr>console := console st @ [(l, msg)]\<rparr>"

text \<open>Writing one entry of a scripts table: an existing key keeps its place.\<close>

fun set_script :: "string \<Rightarrow> string \<Rightarrow> (string \<times> string) list \<Rightarrow> (string \<times> string) list" where
  "set_script key val [] = [(key, val)]"
| "set_script key val ((k, v) # s) =
     (if k = key then (key, val) # s else (k, v) # set_script key val s)"

text \<open>
  The \<^verbatim>\<open>npm-add-script\<close> package: it needs a key and a value, reads \<^verbatim>\<open>package.json\<close> of
  the working directory, refuses a key whose command in the manifest is not empty (no
  \<^verbatim>\<open>force\<close> option is passed; an empty command counts as none) and writes the manifest
  back with the entry set.
\<close>

definition add_script :: "fsys \<Rightarrow> loc \<Rightarrow> string \<Rightarrow> string \<Rightarrow> error option \<times> fsys" where
  "add_script t wd key val =
     (if key = [] \<or> val = [] then (Some MissingKeyOrValue, t)
      else (case map_of t (wd @ [''package.json'']) of
              None \<Rightarrow> (Some ENOENT, t)
            | Some Dir \<Rightarrow> (Some EISDIR, t)
            | Some (File (Text ls)) \<Rightarrow> (Some SyntaxError, t)
            | Some (File (Manifest s)) \<Rightarrow>
                (case map_of s key of
                   Some (c # cs) \<Rightarrow> (Some (ScriptExists key), t)
                 | _ \<Rightarrow>
                     (None, (wd @ [''package.json''], File (Manifest (set_script key val s))) # t))))"

text \<open>What each call does to the file system, and the error it throws if it fails.\<close>

fun perform :: "env \<Rightarrow> call \<Rightarrow> fsys \<Rightarrow> error option \<times> fsys" where
  "perform env (MakeDir p) t = mkdir_p t (cwd env) p"
| "perform env (Exec cmd) t =
     (case exec_cmd env cmd t of Inl e \<Rightarrow> (Some e, t) | Inr t' \<Rightarrow> (None, t'))"
| "perform env (AddScript key val) t = add_script t (cwd env) key val"
| "perform env (CopyFile src dst) t = copy_file t (cwd env) src dst"
| "perform env (Rename src dst) t = rename_path t (cwd env) src dst"
| "perform env (MoveFile src dst) t = move_file t (cwd env) src dst"

text \<open>
  The statements the function is made of after its checks: \<^verbatim>\<open>console.info(...)\<close>, one
  call (awaited where it is asynchronous), and \<^verbatim>\<open>await Promise.all([...])\<close>.
\<close>

datatype stmt = Log string | Do call | DoAll "call list"

definition do_call :: "env \<Rightarrow> call \<Rightarrow> state \<Rightarrow> error option \<times> state" where
  "do_call env c st =
     (case perform env c (fs st) of
        (e, t) \<Rightarrow> (e, st\<lparr>fs := t, calls := calls st @ [c]\<rparr>))"

text \<open>
  Under \<^verbatim>\<open>Promise.all\<close> every call of the list has been started, so all of them take
  effect; the first rejection is the one reported.
\<close>

fun do_all :: "env \<Rightarrow> call list \<Rightarrow> state \<Rightarrow> error option \<times> state" where
  "do_all env [] st = (None, st)"
| "do_all env (c # cs) st =
     (case do_call env c st of
        (e, st') \<Rightarrow>
          (case do_all env cs st' of
             (e', st'') \<Rightarrow> ((case e of None \<Rightarrow> e' | Some x \<Rightarrow> Some x), st'')))"

fun step :: "env \<Rightarrow> stmt \<Rightarrow> state \<Rightarrow> error option \<times> state" where
  "step env (Log msg) st = (None, say Info msg st)"
| "step env (Do c) st = do_call env c st"
| "step env (DoAll cs) st = do_all env cs st"

text \<open>Statements in sequence: the first one that throws ends the run there.\<close>

fun run_stmts :: "env \<Rightarrow> stmt list \<Rightarrow> state \<Rightarrow> error option \<times> state" where
  "run_stmts env [] st = (None, st)"
| "run_stmts env (s # ss) st =
     (case step env s st of
        (Some e, st') \<Rightarrow> (Some e, st')
      | (None, st') \<Rightarrow> run_stmts env ss st')"

text \<open>
  Reading the lines of the spec file (\<^verbatim>\<open>line-reader\<close> opens the path for reading): a
  missing path and a directory are errors.
\<close>

definition readLines :: "env \<Rightarrow> fsys \<Rightarrow> string \<Rightarrow> error + string list" where
  "readLines env t p =
     (case resolve t (cwd env) p of
        Inl e \<Rightarrow> Inl e
      | Inr l \<Rightarrow>
          (case map_of t l of
             None \<Rightarrow> Inl ENOENT
           | Some Dir \<Rightarrow> Inl EISDIR
           | Some (File (Text ls)) \<Rightarrow> Inr ls
           | Some (File (Manifest s)) \<Rightarrow> Inr (manifest_lines env s)))"

subsection \<open>The registered scripts (lines 87 to 111)\<close>

text \<open>
  The key and the value of every \<^verbatim>\<open>npmAddScript\<close> call, in the order of the source. The
  first argument is \<^verbatim>\<open>fileNameWithVersion\<close>, the second
  \<^verbatim>\<open>fileNameWithVersionNoExtension\<close>.
\<close>

definition scripts :: "string \<Rightarrow> string \<Rightarrow> (string \<times> string) list" where
  \<open>scripts f n =
    [(''make:swagger'', ''make-dir swagger-stub''),
     (''generate:swagger'',
        ''npm run delete:swagger && npm run make:swagger && openapi-generator-cli generate -i open-api/''
        @ f @ '' -g nodejs-express-server -o swagger-stub --additional-properties=serverPort=9999''),
     (''delete:swagger'', ''rimraf swagger-stub''),
     (''make:docs'', ''make-dir html-docs''),
     (''delete:docs'', ''rimraf html-docs''),
     (''generate:docs'',
        ''npm run delete:docs && npm run make:docs && openapi-generator-cli generate -i open-api/''
        @ f @ '' -g html2 -o html-docs''),
     (''make:markdown'', ''make-dir markdown-docs''),
     (''generate:markdown'',
        ''npm run delete:markdown && npm run make:markdown && widdershins open-api/'' @ f
        @ '' -o markdown-docs/'' @ n
        @ ''_dirty.md --omitHeader --expandBody --language_tabs 'javascript:JavaScript' && npm run markdown:prepare''),
     (''delete:markdown'', ''rimraf markdown-docs''),
     (''markdown:tidy'',
        ''tidy-markdown < ./markdown-docs/'' @ n @ ''_dirty.md > ./markdown-docs/'' @ n @ ''.md''),
     (''markdown:remove-comments'',
        ''replace-in-files --string="<!-- backwards compatibility -->" "<!-- Generator: Widdershins v4.0.1 -->" --replacement=''
        @ [CHR 0x27, CHR 0x27] @ '' ./markdown-docs/'' @ n @ ''.md''),
     (''markdown:remove-empty-links'',
        ''replace-in-files --string="[]()" --replacement='' @ [CHR 0x27, CHR 0x27]
        @ '' markdown-docs/'' @ n @ ''.md''),
     (''markdown:remove-aside'',
        ''replace-in-files --string="</aside>" --replacement='**' markdown-docs/'' @ n @ ''.md''),
     (''markdown:replace-warnings'',
        ''replace-in-files --regex="<aside[^>]*>" --replacement='**' markdown-docs/'' @ n @ ''.md''),
     (''markdown:remove-dirty'', ''rimraf markdown-docs/'' @ n @ ''_dirty.md''),
     (''markdown:prepare'',
        ''npm run markdown:tidy && npm run markdown:remove-comments && npm run markdown:remove-empty-links && npm run markdown:remove-aside && npm run markdown:replace-warnings && npm run markdown:remove-dirty''),
     (''generate'',
        ''npm run generate:swagger && npm run generate:docs && npm run generate:markdown''),
     (''start:swagger'', ''cd swagger-stub && npm start''),
     (''start:prism'', ''prism mock open-api/'' @ f),
     (''start:browser'',
        ''wait-on http://localhost:9999/api-docs && start http://localhost:9999/api-docs"''),
     (''start'',
        ''concurrently -n swagger,prism,browser "npm run start:swagger" "npm run start:prism" "npm run start:browser"'')]\<close>

subsection \<open>The run (lines 14 to 135)\<close>

text \<open>Lines 77 to 84: the three directories, created together, and the new manifest.\<close>

definition make_directories :: "string \<Rightarrow> stmt list" where
  "make_directories versionNumber =
     [Log ''Making Directories...'',
      DoAll
        [MakeDir (''api-spec/'' @ versionNumber @ ''/open-api''),
         MakeDir (''api-spec/'' @ versionNumber @ ''/swagger-stub''),
         MakeDir (''api-spec/'' @ versionNumber @ ''/html-docs'')],
      Do (Exec ''npm init -y'')]"

text \<open>Lines 86 to 111.\<close>

definition add_scripts :: "string \<Rightarrow> string \<Rightarrow> stmt list" where
  "add_scripts fileNameWithVersion fileNameWithVersionNoExtension =
     Log ''Adding NPM Scripts...''
     # map (\<lambda>(key, val). Do (AddScript key val))
         (scripts fileNameWithVersion fileNameWithVersionNoExtension)"

text \<open>Lines 113 to 116. The old path of the rename reads \<^verbatim>\<open>ozpen-api\<close> in the source.\<close>

definition relocate :: "string \<Rightarrow> string \<Rightarrow> string \<Rightarrow> stmt list" where
  "relocate fileName versionNumber fileNameWithVersion =
     [Log ''Moving / Copying Files...'',
      Do (CopyFile fileName (''api-spec/'' @ versionNumber @ ''/open-api/'' @ fileName)),
      Do (Rename (''api-spec/'' @ versionNumber @ ''/ozpen-api/'' @ fileName)
            (''api-spec/'' @ versionNumber @ ''/open-api/'' @ fileNameWithVersion)),
      Do (MoveFile ''package.json'' (''api-spec/'' @ versionNumber @ ''/package.json''))]"

text \<open>Lines 118 to 133.\<close>

definition install_and_generate :: "string \<Rightarrow> stmt list" where
  "install_and_generate versionNumber =
     [Log ''Installing NPM Modules. Please Wait...'',
      Do (Exec (''npm --prefix api-spec/'' @ versionNumber
        @ '' i @openapitools/openapi-generator-cli@2.2.8 @stoplight/prism-cli@4.2.3 concurrently@6.1.0 rimraf@3.0.2 make-dir-cli@3.0.0 wait-on@5.3.0 replace-in-files-cli@1.0.0 tidy-markdown@2.0.3 widdershins@4.0.1'')),
      Log ''Generating Server Stub. Please Wait...'',
      Do (Exec (''npm --prefix api-spec/'' @ versionNumber @ '' run generate:swagger'')),
      Log ''Generating HTML Documentation. Please Wait...'',
      Do (Exec (''npm --prefix api-spec/'' @ versionNumber @ '' run generate:docs'')),
      Log ''Generating Markdown Documentation. Please Wait...'',
      Do (Exec (''npm --prefix api-spec/'' @ versionNumber @ '' run generate:markdown'')),
      Log ''Cleaning Up...'',
      Do (MoveFile ''openapitools.json'' ''api-spec/openapitools.json''),
      Log (''Stub Generation Complete!'' @ [CHR 0x0A] @ '' Run 'npm --prefix api-spec/''
        @ versionNumber
        @ '' start' to start the API mocking and Swagger documentation servers.'' @ [CHR 0x0A])]"

datatype outcome = Returned | Completed | Rejected error

text \<open>
  \<^verbatim>\<open>argv.f\<close> is \<open>None\<close> when no \<^verbatim>\<open>-f\<close> was given. \<^verbatim>\<open>!argv.f\<close> also holds for the empty
  string. A value that the argument parser delivers as a number or a boolean is not a
  string and is left out of this model.
\<close>

definition falsy :: "string option \<Rightarrow> bool" where
  "falsy a = (a = None \<or> a = Some [])"

definition no_file_msg :: string where
  "no_file_msg = ''No file was passed in. Please pass in an OpenAPI file with the '-f' flag.''"

definition invalid_file_msg :: "string \<Rightarrow> string" where
  "invalid_file_msg fileName =
     ''Invalid file was passed in. Could not find '' @ fileName
     @ ''. Please pass in an OpenAPI file with the '-f' flag.''"

definition filetype_msg :: "string \<Rightarrow> string" where
  "filetype_msg extension =
     ''Filetype '' @ extension
     @ '' is not a valid OpenAPI file type. Please pass in an OpenAPI file with the '-f' flag.''"

definition no_version_msg :: string where
  "no_version_msg = ''No version number found. Aborting!''"

definition exists_msg :: "string \<Rightarrow> string" where
  "exists_msg versionNumber =
     ''Version '' @ versionNumber
     @ '' already exists. Please update your OpenAPI file's version number and try again.''"

definition openApiExtensions :: "string set" where
  "openApiExtensions = {''yaml'', ''yml'', ''json''}"

text \<open>Lines 62 and 63.\<close>

definition fileNameWithVersion :: "string \<Rightarrow> string \<Rightarrow> string \<Rightarrow> string" where
  "fileNameWithVersion fileName extension versionNumber =
     replace_str fileName extension (''-'' @ versionNumber @ extension)"

definition fileNameWithVersionNoExtension :: "string \<Rightarrow> string \<Rightarrow> string \<Rightarrow> string" where
  "fileNameWithVersionNoExtension fileName extension versionNumber =
     replace_str (fileNameWithVersion fileName extension versionNumber) extension []"

text \<open>Lines 77 to 133 as one list of statements.\<close>

definition pipeline :: "string \<Rightarrow> string \<Rightarrow> string \<Rightarrow> stmt list" where
  "pipeline fileName extension versionNumber =
     make_directories versionNumber
     @ add_scripts (fileNameWithVersion fileName extension versionNumber)
         (fileNameWithVersionNoExtension fileName extension versionNumber)
     @ relocate fileName versionNumber (fileNameWithVersion fileName extension versionNumber)
     @ install_and_generate versionNumber"

text \<open>Lines 62 to 133: everything after the version has been found.\<close>

definition generate :: "env \<Rightarrow> string \<Rightarrow> string \<Rightarrow> string \<Rightarrow> state \<Rightarrow> outcome \<times> state" where
  "generate env fileName extension versionNumber st =
     (if \<not> existsSync (fs st) (cwd env) fileName
      then (Returned, say Err (invalid_file_msg fileName) st)
      else if existsSync (fs st) (cwd env) (''./api-spec/'' @ versionNumber)
      then (Returned, say Err (exists_msg versionNumber) st)
      else (case run_stmts env (pipeline fileName extension versionNumber) st of
              (Some e, st') \<Rightarrow> (Rejected e, st')
            | (None, st') \<Rightarrow> (Completed, st')))"

text \<open>Lines 45 to 60: the scan for the version, from the sentinel \<^verbatim>\<open>"0"\<close>.\<close>

definition get_version :: "env \<Rightarrow> string \<Rightarrow> string \<Rightarrow> state \<Rightarrow> outcome \<times> state" where
  "get_version env fileName extension st0 =
     (let st = say Info ''Getting Version Number...'' st0
      in case readLines env (fs st) fileName of
           Inl e \<Rightarrow> (Rejected e, st)
         | Inr ls \<Rightarrow>
             (case eachLine ls (''0'', []) of
                (versionNumber, out) \<Rightarrow>
                  (if versionNumber = ''0''
                   then (Returned, say Err no_version_msg (st\<lparr>console := console st @ out\<rparr>))
                   else generate env fileName extension versionNumber
                          (st\<lparr>console := console st @ out\<rparr>))))"

text \<open>The whole function, from the state in which the process starts.\<close>

definition run :: "env \<Rightarrow> fsys \<Rightarrow> string option \<Rightarrow> outcome \<times> state" where
  "run env t argv_f =
     (let st = \<lparr>fs = t, console = [(Info, ''Starting OpenAPI Stub Generation...'')], calls = []\<rparr>
      in if falsy argv_f then (Returned, say Err no_file_msg st)
         else (let fileName = the argv_f
               in if \<not> existsSync (fs st) (cwd env) fileName
                  then (Returned, say Err (invalid_file_msg fileName) st)
                  else (let extension = extname fileName
                        in if drop 1 extension \<notin> openApiExtensions
                           then (Returned, say Err (filetype_msg extension) st)
                           else get_version env fileName extension st)))"

subsection \<open>The calls a list of statements can make\<close>

fun stmt_calls :: "stmt \<Rightarrow> call list" where
  "stmt_calls (Log msg) = []"
| "stmt_calls (Do c) = [c]"
| "stmt_calls (DoAll cs) = cs"

text \<open>
  From one state to a later one the console has only grown, and by \<^verbatim>\<open>console.info\<close> lines.
\<close>

definition quiet :: "state \<Rightarrow> state \<Rightarrow> bool" where
  "quiet st st' = (\<exists>out. console st' = console st @ out \<and> (\<forall>m\<in>set out. fst m = Info))"


subsection \<open>An example host\<close>

text \<open>
  \<^verbatim>\<open>npm init -y\<close> in a directory: a missing manifest is created with the default
  \<^verbatim>\<open>test\<close> script, an existing one keeps its scripts table as it is. In the example host
  every other command leaves the tree as it is.
\<close>

definition npm_init :: "loc \<Rightarrow> fsys \<Rightarrow> error + fsys" where
  \<open>npm_init wd t =
     (case map_of t (wd @ [''package.json'']) of
        None \<Rightarrow>
          Inr ((wd @ [''package.json''],
                File (Manifest [(''test'', ''echo "Error: no test specified" && exit 1'')])) # t)
      | Some Dir \<Rightarrow> Inl EISDIR
      | Some (File (Text ls)) \<Rightarrow> Inl SyntaxError
      | Some (File (Manifest s)) \<Rightarrow> Inr t)\<close>

definition example_host :: env where
  "example_host =
     \<lparr>cwd = [''work''],
      exec_cmd = (\<lambda>cmd t. if cmd = ''npm init -y'' then npm_init [''work''] t else Inr t),
      manifest_lines = (\<lambda>s. [])\<rparr>"

definition example_tree :: fsys where
  "example_tree =
     [([], Dir),
      ([''work''], Dir),
      ([''work'', ''spec.yaml''],
         File (Text [''openapi: 3.0.0'', ''info:'', ''  title: Pets'', ''  version: 2.0.0'',
                     ''paths: {}''])),
      ([''work'', ''plain.yaml''], File (Text [''openapi: 3.0.0'', ''paths: {}''])),
      ([''work'', ''notes.txt''], File (Text [''version: 1.0.0''])),
      ([''work'', ''a.yml''], Dir),
      ([''work'', ''a.yml'', ''b.yml''], File (Text [''version: 1'']))]"

definition taken_tree :: fsys where
  "taken_tree =
     ([''work'', ''api-spec'', ''v2-0-0'', ''keep.txt''], File (Text [''old''])) #
     ([''work'', ''api-spec'', ''v2-0-0''], Dir) #
     ([''work'', ''api-spec''], Dir) # example_tree"

text \<open>The example tree with a spec file in JSON.\<close>

definition json_tree :: fsys where
  \<open>json_tree =
     ([''work'', ''spec.json''],
        File (Text [''{'', ''  "openapi": "3.0.0",'', ''  "info": {'', ''    "title": "Pets",'',
                    ''    "version": "1.0.0"'', ''  },'', ''  "paths": {}'', ''}''])) # example_tree\<close>

section \<open>Properties\<close>

subsection \<open>The scan for the version\<close>

lemma eachLine_no_match:
  "\<forall>l\<in>set ls. \<not> includes_str l ''version'' \<Longrightarrow> eachLine ls (v, out) = (v, out)"
  by (induction ls) auto

lemma eachLine_first_match:
  "\<forall>l\<in>set pre. \<not> includes_str l ''version'' \<Longrightarrow> includes_str line ''version'' \<Longrightarrow>
   eachLine (pre @ line # post) (v, out) =
     (version_of_line line, out @ [(Info, ''Version Number Found: '' @ version_of_line line)])"
  by (induction pre) auto

lemma version_of_line_not_sentinel: "version_of_line line \<noteq> ''0''"
  by (simp add: version_of_line_def)

lemma eachLine_cases:
  "eachLine ls (v, out) = (v, out) \<and> (\<forall>l\<in>set ls. \<not> includes_str l ''version'')
   \<or> (\<exists>pre line post. ls = pre @ line # post \<and> (\<forall>l\<in>set pre. \<not> includes_str l ''version'')
        \<and> includes_str line ''version''
        \<and> eachLine ls (v, out) =
            (version_of_line line, out @ [(Info, ''Version Number Found: '' @ version_of_line line)]))"
proof (induction ls)
  case Nil
  then show ?case by simp
next
  case (Cons a ls)
  show ?case
  proof (cases "includes_str a ''version''")
    case True
    then have "a # ls = [] @ a # ls \<and> (\<forall>l\<in>set []. \<not> includes_str l ''version'')
        \<and> includes_str a ''version''
        \<and> eachLine (a # ls) (v, out) =
            (version_of_line a, out @ [(Info, ''Version Number Found: '' @ version_of_line a)])"
      by simp
    then show ?thesis by blast
  next
    case False
    from Cons.IH show ?thesis
    proof
      assume "eachLine ls (v, out) = (v, out) \<and> (\<forall>l\<in>set ls. \<not> includes_str l ''version'')"
      with False show ?thesis by simp
    next
      assume "\<exists>pre line post. ls = pre @ line # post \<and> (\<forall>l\<in>set pre. \<not> includes_str l ''version'')
        \<and> includes_str line ''version''
        \<and> eachLine ls (v, out) =
            (version_of_line line, out @ [(Info, ''Version Number Found: '' @ version_of_line line)])"
      then obtain pre line post where h: "ls = pre @ line # post" "\<forall>l\<in>set pre. \<not> includes_str l ''version''"
        "includes_str line ''version''" "eachLine ls (v, out) =
            (version_of_line line, out @ [(Info, ''Version Number Found: '' @ version_of_line line)])"
        by blast
      from h False have "a # ls = (a # pre) @ line # post \<and> (\<forall>l\<in>set (a # pre). \<not> includes_str l ''version'')
        \<and> includes_str line ''version''
        \<and> eachLine (a # ls) (v, out) =
            (version_of_line line, out @ [(Info, ''Version Number Found: '' @ version_of_line line)])"
        by simp
      then show ?thesis by blast
    qed
  qed
qed

text \<open>
  Claim C3. When the first line of the spec file that contains \<^verbatim>\<open>version\<close> is exactly
  \<^verbatim>\<open>version: '1.2.3'\<close>, the version token that the scan derives is \<^verbatim>\<open>v1-2-3\<close>.
\<close>

theorem version_token_example:
  assumes "\<forall>l\<in>set pre. \<not> includes_str l ''version''"
  shows "fst (eachLine (pre @ (''version: '1.2.3'' @ [CHR 0x27]) # post) (''0'', out)) = ''v1-2-3''"
proof -
  have inc: "includes_str (''version: '1.2.3'' @ [CHR 0x27]) ''version''"
    by (simp add: includes_str_def)
  have tok: "version_of_line (''version: '1.2.3'' @ [CHR 0x27]) = ''v1-2-3''"
    by (simp add: version_of_line_def replace_str_def replaceAll_chr_def trim_def is_space_def)
  from eachLine_first_match [OF assms inc] tok show ?thesis by simp
qed

theorem version_token_example_witness:
  "\<not> includes_str ''openapi: 3.0.0'' ''version'' \<and> \<not> includes_str ''info:'' ''version''
   \<and> fst (eachLine ([''openapi: 3.0.0'', ''info:'']
                      @ (''version: '1.2.3'' @ [CHR 0x27]) # [''paths: {}'']) (''0'', []))
       = ''v1-2-3''"
proof -
  have h: "\<forall>l\<in>set [''openapi: 3.0.0'', ''info:'']. \<not> includes_str l ''version''"
    by (simp add: includes_str_def)
  from version_token_example [OF h, of "[''paths: {}'']" "[]"] h show ?thesis by simp
qed

subsection \<open>Runs that stop before anything is created\<close>

text \<open>
  Claim C6. When the \<^verbatim>\<open>-f\<close> flag is missing, the path does not exist, or the extension is
  not one of \<^verbatim>\<open>yaml\<close>, \<^verbatim>\<open>yml\<close>, \<^verbatim>\<open>json\<close>, the run prints one diagnostic and returns:
  the file system is as it was and no call with a side effect has been made.
\<close>

theorem invalid_input_no_side_effects:
  assumes "falsy a \<or> \<not> existsSync t (cwd env) (the a)
           \<or> drop 1 (extname (the a)) \<notin> openApiExtensions"
  shows "fst (run env t a) = Returned
         \<and> fs (snd (run env t a)) = t
         \<and> calls (snd (run env t a)) = []
         \<and> (\<exists>msg \<in> {no_file_msg, invalid_file_msg (the a), filetype_msg (extname (the a))}.
              console (snd (run env t a)) =
                [(Info, ''Starting OpenAPI Stub Generation...''), (Err, msg)])"
  using assms by (auto simp add: run_def Let_def say_def)

theorem invalid_input_no_side_effects_witness:
  "(falsy None \<or> \<not> existsSync example_tree (cwd example_host) (the None)
      \<or> drop 1 (extname (the None)) \<notin> openApiExtensions)
   \<and> fst (run example_host example_tree None) = Returned
   \<and> fs (snd (run example_host example_tree None)) = example_tree
   \<and> calls (snd (run example_host example_tree None)) = []
   \<and> (falsy (Some ''missing.yaml'')
      \<or> \<not> existsSync example_tree (cwd example_host) (the (Some ''missing.yaml''))
      \<or> drop 1 (extname (the (Some ''missing.yaml''))) \<notin> openApiExtensions)
   \<and> fst (run example_host example_tree (Some ''missing.yaml'')) = Returned
   \<and> fs (snd (run example_host example_tree (Some ''missing.yaml''))) = example_tree
   \<and> calls (snd (run example_host example_tree (Some ''missing.yaml''))) = []
   \<and> (falsy (Some ''notes.txt'')
      \<or> \<not> existsSync example_tree (cwd example_host) (the (Some ''notes.txt''))
      \<or> drop 1 (extname (the (Some ''notes.txt''))) \<notin> openApiExtensions)
   \<and> fst (run example_host example_tree (Some ''notes.txt'')) = Returned
   \<and> fs (snd (run example_host example_tree (Some ''notes.txt''))) = example_tree
   \<and> calls (snd (run example_host example_tree (Some ''notes.txt''))) = []"
proof -
  have h1: "falsy None \<or> \<not> existsSync example_tree (cwd example_host) (the None)
      \<or> drop 1 (extname (the None)) \<notin> openApiExtensions"
    by (simp add: falsy_def)
  have h2: "falsy (Some ''missing.yaml'')
      \<or> \<not> existsSync example_tree (cwd example_host) (the (Some ''missing.yaml''))
      \<or> drop 1 (extname (the (Some ''missing.yaml''))) \<notin> openApiExtensions"
    by code_simp
  have h3: "falsy (Some ''notes.txt'')
      \<or> \<not> existsSync example_tree (cwd example_host) (the (Some ''notes.txt''))
      \<or> drop 1 (extname (the (Some ''notes.txt''))) \<notin> openApiExtensions"
    by code_simp
  from invalid_input_no_side_effects [OF h1] invalid_input_no_side_effects [OF h2]
    invalid_input_no_side_effects [OF h3] h1 h2 h3
  show ?thesis by blast
qed

text \<open>
  Claim C5. When no line of the spec file contains \<^verbatim>\<open>version\<close>, the version stays at the
  sentinel \<^verbatim>\<open>"0"\<close> and the run returns before any directory is created.
\<close>

theorem no_version_line_aborts:
  assumes "\<not> falsy (Some f)" and "existsSync t (cwd env) f"
    and "drop 1 (extname f) \<in> openApiExtensions"
    and "readLines env t f = Inr ls"
    and "\<forall>l\<in>set ls. \<not> includes_str l ''version''"
  shows "fst (eachLine ls (''0'', [])) = ''0'' \<and>
         run env t (Some f) =
           (Returned, \<lparr>fs = t,
                       console = [(Info, ''Starting OpenAPI Stub Generation...''),
                                  (Info, ''Getting Version Number...''),
                                  (Err, no_version_msg)],
                       calls = []\<rparr>)"
  using assms eachLine_no_match [OF assms(5), of "''0''" "[]"]
  by (simp add: run_def get_version_def Let_def say_def)

theorem no_version_line_aborts_witness:
  "\<not> falsy (Some ''plain.yaml'') \<and> existsSync example_tree (cwd example_host) ''plain.yaml''
   \<and> drop 1 (extname ''plain.yaml'') \<in> openApiExtensions
   \<and> readLines example_host example_tree ''plain.yaml'' = Inr [''openapi: 3.0.0'', ''paths: {}'']
   \<and> \<not> includes_str ''openapi: 3.0.0'' ''version'' \<and> \<not> includes_str ''paths: {}'' ''version''
   \<and> fst (run example_host example_tree (Some ''plain.yaml'')) = Returned
   \<and> fs (snd (run example_host example_tree (Some ''plain.yaml''))) = example_tree
   \<and> calls (snd (run example_host example_tree (Some ''plain.yaml''))) = []"
proof -
  have h1: "\<not> falsy (Some ''plain.yaml'')" by (simp add: falsy_def)
  have h2: "existsSync example_tree (cwd example_host) ''plain.yaml''" by code_simp
  have h3: "drop 1 (extname ''plain.yaml'') \<in> openApiExtensions" by code_simp
  have h4: "readLines example_host example_tree ''plain.yaml'' = Inr [''openapi: 3.0.0'', ''paths: {}'']"
    by code_simp
  have h5: "\<forall>l\<in>set [''openapi: 3.0.0'', ''paths: {}'']. \<not> includes_str l ''version''"
    by (simp add: includes_str_def)
  from no_version_line_aborts [OF h1 h2 h3 h4 h5] h1 h2 h3 h4 h5 show ?thesis by simp
qed

text \<open>
  Claim C4. When \<^verbatim>\<open>api-spec/<version>\<close> already exists at the check, the run prints an
  error and returns: the file system, and so that directory, is as it was, and nothing
  has been created.
\<close>

theorem existing_version_directory_aborts:
  assumes "\<not> falsy (Some f)" and "existsSync t (cwd env) f"
    and "drop 1 (extname f) \<in> openApiExtensions"
    and "readLines env t f = Inr ls"
    and "eachLine ls (''0'', []) = (v, out)"
    and "v \<noteq> ''0''"
    and "existsSync t (cwd env) (''./api-spec/'' @ v)"
  shows "run env t (Some f) =
           (Returned, \<lparr>fs = t,
                       console = [(Info, ''Starting OpenAPI Stub Generation...''),
                                  (Info, ''Getting Version Number...'')] @ out
                                 @ [(Err, exists_msg v)],
                       calls = []\<rparr>)"
  using assms
  by (simp add: run_def get_version_def generate_def Let_def say_def)

theorem existing_version_directory_aborts_witness:
  "\<not> falsy (Some ''spec.yaml'') \<and> existsSync taken_tree (cwd example_host) ''spec.yaml''
   \<and> drop 1 (extname ''spec.yaml'') \<in> openApiExtensions
   \<and> readLines example_host taken_tree ''spec.yaml''
       = Inr [''openapi: 3.0.0'', ''info:'', ''  title: Pets'', ''  version: 2.0.0'', ''paths: {}'']
   \<and> eachLine [''openapi: 3.0.0'', ''info:'', ''  title: Pets'', ''  version: 2.0.0'', ''paths: {}'']
        (''0'', []) = (''v2-0-0'', [(Info, ''Version Number Found: v2-0-0'')])
   \<and> ''v2-0-0'' \<noteq> ''0''
   \<and> existsSync taken_tree (cwd example_host) (''./api-spec/'' @ ''v2-0-0'')
   \<and> fst (run example_host taken_tree (Some ''spec.yaml'')) = Returned
   \<and> fs (snd (run example_host taken_tree (Some ''spec.yaml''))) = taken_tree
   \<and> calls (snd (run example_host taken_tree (Some ''spec.yaml''))) = []"
proof -
  have h1: "\<not> falsy (Some ''spec.yaml'')" by (simp add: falsy_def)
  have h2: "existsSync taken_tree (cwd example_host) ''spec.yaml''" by code_simp
  have h3: "drop 1 (extname ''spec.yaml'') \<in> openApiExtensions" by code_simp
  have h4: "readLines example_host taken_tree ''spec.yaml''
       = Inr [''openapi: 3.0.0'', ''info:'', ''  title: Pets'', ''  version: 2.0.0'', ''paths: {}'']"
    by code_simp
  have h5: "eachLine [''openapi: 3.0.0'', ''info:'', ''  title: Pets'', ''  version: 2.0.0'', ''paths: {}'']
        (''0'', []) = (''v2-0-0'', [(Info, ''Version Number Found: v2-0-0'')])"
    by code_simp
  have h6: "''v2-0-0'' \<noteq> ''0''" by simp
  have h7: "existsSync taken_tree (cwd example_host) (''./api-spec/'' @ ''v2-0-0'')" by code_simp
  from existing_version_directory_aborts [OF h1 h2 h3 h4 h5 h6 h7] h1 h2 h3 h4 h5 h6 h7
  show ?thesis by simp
qed

subsection \<open>The trace of a run\<close>

lemma quiet_refl: "quiet st st"
  by (simp add: quiet_def)

lemma quiet_trans: "quiet a b \<Longrightarrow> quiet b c \<Longrightarrow> quiet a c"
  by (auto simp add: quiet_def)

lemma do_call_effect:
  "do_call env c st = (e, st') \<Longrightarrow> calls st' = calls st @ [c] \<and> console st' = console st"
  by (auto simp add: do_call_def split: prod.splits)

lemma do_all_effect:
  "do_all env cs st = (e, st') \<Longrightarrow> calls st' = calls st @ cs \<and> console st' = console st"
proof (induction cs arbitrary: st e st')
  case Nil
  then show ?case by simp
next
  case (Cons c cs)
  obtain e1 st1 where a: "do_call env c st = (e1, st1)" by (cases "do_call env c st")
  obtain e2 st2 where b: "do_all env cs st1 = (e2, st2)" by (cases "do_all env cs st1")
  from Cons.prems a b have "st' = st2" by simp
  with do_call_effect [OF a] Cons.IH [OF b] show ?case by simp
qed

lemma step_effect:
  "step env s st = (e, st') \<Longrightarrow> calls st' = calls st @ stmt_calls s \<and> quiet st st'"
proof (cases s)
  case (Log msg)
  assume "step env s st = (e, st')"
  with Log show ?thesis by (auto simp add: say_def quiet_def)
next
  case (Do c)
  assume "step env s st = (e, st')"
  with Do do_call_effect [of env c st e st'] show ?thesis by (simp add: quiet_def)
next
  case (DoAll cs)
  assume "step env s st = (e, st')"
  with DoAll do_all_effect [of env cs st e st'] show ?thesis by (simp add: quiet_def)
qed

lemma run_stmts_effect:
  "run_stmts env ss st = (e, st') \<Longrightarrow>
     (\<exists>k. calls st' = calls st @ take k (concat (map stmt_calls ss)))
     \<and> (e = None \<longrightarrow> calls st' = calls st @ concat (map stmt_calls ss))
     \<and> quiet st st'"
proof (induction ss arbitrary: st)
  case Nil
  then show ?case by (simp add: quiet_refl)
next
  case (Cons s ss)
  obtain e1 st1 where a: "step env s st = (e1, st1)" by (cases "step env s st")
  note eff = step_effect [OF a]
  show ?case
  proof (cases e1)
    case None
    with Cons.prems a have r: "run_stmts env ss st1 = (e, st')" by simp
    from Cons.IH [OF r] obtain k where
      k: "calls st' = calls st1 @ take k (concat (map stmt_calls ss))"
      and full: "e = None \<longrightarrow> calls st' = calls st1 @ concat (map stmt_calls ss)"
      and q: "quiet st1 st'" by blast
    from k eff have "calls st' = calls st @ take (length (stmt_calls s) + k) (concat (map stmt_calls (s # ss)))"
      by simp
    then have "\<exists>k. calls st' = calls st @ take k (concat (map stmt_calls (s # ss)))" by blast
    moreover from full eff have "e = None \<longrightarrow> calls st' = calls st @ concat (map stmt_calls (s # ss))"
      by simp
    moreover from eff q have "quiet st st'" by (blast intro: quiet_trans)
    ultimately show ?thesis by blast
  next
    case (Some x)
    with Cons.prems a have "e = Some x" "st' = st1" by simp_all
    with eff have "calls st' = calls st @ take (length (stmt_calls s)) (concat (map stmt_calls (s # ss)))"
      "quiet st st'" "e \<noteq> None"
      by simp_all
    then show ?thesis by blast
  qed
qed

lemma run_stmts_append:
  "run_stmts env (xs @ ys) st =
     (case run_stmts env xs st of
        (Some e, st') \<Rightarrow> (Some e, st')
      | (None, st') \<Rightarrow> run_stmts env ys st')"
  by (induction xs arbitrary: st) (auto split: prod.splits option.splits)

lemma run_not_falsy: "calls (snd (run env t a)) \<noteq> [] \<Longrightarrow> \<not> falsy a"
  by (auto simp add: run_def Let_def say_def)

lemma run_Some:
  "run env t (Some f) =
     (let st = \<lparr>fs = t, console = [(Info, ''Starting OpenAPI Stub Generation...'')], calls = []\<rparr>
      in if f = [] then (Returned, say Err no_file_msg st)
         else if \<not> existsSync t (cwd env) f then (Returned, say Err (invalid_file_msg f) st)
         else if drop 1 (extname f) \<notin> openApiExtensions
         then (Returned, say Err (filetype_msg (extname f)) st)
         else get_version env f (extname f) st)"
  by (simp add: run_def Let_def falsy_def)


lemma generate_trace:
  "\<exists>k. calls (snd (generate env f x v st)) = calls st @ take k (concat (map stmt_calls (pipeline f x v)))"
proof -
  obtain e st' where rs: "run_stmts env (pipeline f x v) st = (e, st')"
    by (cases "run_stmts env (pipeline f x v) st")
  from run_stmts_effect [OF rs] obtain k where
    k: "calls st' = calls st @ take k (concat (map stmt_calls (pipeline f x v)))" by blast
  have z: "calls st = calls st @ take 0 (concat (map stmt_calls (pipeline f x v)))" by simp
  have "calls (snd (generate env f x v st)) = calls st \<or> calls (snd (generate env f x v st)) = calls st'"
    using rs by (cases e) (simp_all add: generate_def say_def)
  with k z show ?thesis by metis
qed

lemma run_trace:
  "calls (snd (run env t a)) = []
   \<or> (\<exists>f ls v out k. a = Some f \<and> readLines env t f = Inr ls
        \<and> eachLine ls (''0'', []) = (v, out) \<and> v \<noteq> ''0''
        \<and> calls (snd (run env t a)) = take k (concat (map stmt_calls (pipeline f (extname f) v))))"
proof (cases "calls (snd (run env t a)) = []")
  case True
  then show ?thesis by simp
next
  case False
  then have nf: "\<not> falsy a" by (rule run_not_falsy)
  then obtain f where a: "a = Some f" by (auto simp add: falsy_def)
  let ?st0 = "\<lparr>fs = t, console = [(Info, ''Starting OpenAPI Stub Generation...'')], calls = []\<rparr>"
  have r: "run env t a = get_version env f (extname f) ?st0"
    using False unfolding a run_Some by (simp add: Let_def say_def split: if_splits)
  obtain ls where ls: "readLines env t f = Inr ls"
    using False unfolding r by (cases "readLines env t f") (simp_all add: get_version_def Let_def say_def)
  obtain v out where vo: "eachLine ls (''0'', []) = (v, out)" by (cases "eachLine ls (''0'', [])")
  have v0: "v \<noteq> ''0''"
    using False ls vo unfolding r by (auto simp add: get_version_def Let_def say_def)
  let ?st1 = "\<lparr>fs = t, console = [(Info, ''Starting OpenAPI Stub Generation...''), (Info, ''Getting Version Number...'')] @ out, calls = []\<rparr>"
  have g: "run env t a = generate env f (extname f) v ?st1"
    using ls vo v0 unfolding r by (simp add: get_version_def Let_def say_def)
  from generate_trace [of env f "extname f" v ?st1] obtain k where
    "calls (snd (run env t a)) = take k (concat (map stmt_calls (pipeline f (extname f) v)))"
    unfolding g by auto
  then show ?thesis using a ls vo v0 by blast
qed

lemma script_stmt_calls:
  "concat (map (stmt_calls \<circ> (\<lambda>(key, val). Do (AddScript key val))) kvs) =
   map (\<lambda>(key, val). AddScript key val) kvs"
  by (induction kvs) auto

lemma pipeline_calls:
  "concat (map stmt_calls (pipeline f x v)) =
     [MakeDir (''api-spec/'' @ v @ ''/open-api''),
      MakeDir (''api-spec/'' @ v @ ''/swagger-stub''),
      MakeDir (''api-spec/'' @ v @ ''/html-docs''),
      Exec ''npm init -y'']
     @ map (\<lambda>(key, val). AddScript key val)
         (scripts (fileNameWithVersion f x v) (fileNameWithVersionNoExtension f x v))
     @ [CopyFile f (''api-spec/'' @ v @ ''/open-api/'' @ f),
        Rename (''api-spec/'' @ v @ ''/ozpen-api/'' @ f)
          (''api-spec/'' @ v @ ''/open-api/'' @ fileNameWithVersion f x v),
        MoveFile ''package.json'' (''api-spec/'' @ v @ ''/package.json'')]
     @ concat (map stmt_calls (install_and_generate v))"
  by (simp add: pipeline_def make_directories_def add_scripts_def relocate_def
      script_stmt_calls)

lemma install_calls_are_not_registrations:
  "c \<in> set (concat (map stmt_calls (install_and_generate v))) \<Longrightarrow>
     (\<forall>key val. c \<noteq> AddScript key val) \<and> (\<forall>src dst. c \<noteq> CopyFile src dst)"
  by (auto simp add: install_and_generate_def)

lemma pipeline_AddScript:
  "AddScript key val \<in> set (concat (map stmt_calls (pipeline f x v))) \<Longrightarrow>
     (key, val) \<in> set (scripts (fileNameWithVersion f x v) (fileNameWithVersionNoExtension f x v))"
  unfolding pipeline_calls using install_calls_are_not_registrations [of "AddScript key val" v]
  by auto

lemma pipeline_CopyFile:
  "CopyFile src dst \<in> set (concat (map stmt_calls (pipeline f x v))) \<Longrightarrow>
     src = f \<and> dst = ''api-spec/'' @ v @ ''/open-api/'' @ f"
  unfolding pipeline_calls using install_calls_are_not_registrations [of "CopyFile src dst" v]
  by auto

lemma scripts_keys:
  "map fst (scripts f n) =
     [''make:swagger'', ''generate:swagger'', ''delete:swagger'',
      ''make:docs'', ''delete:docs'', ''generate:docs'',
      ''make:markdown'', ''generate:markdown'', ''delete:markdown'',
      ''markdown:tidy'', ''markdown:remove-comments'', ''markdown:remove-empty-links'',
      ''markdown:remove-aside'', ''markdown:replace-warnings'', ''markdown:remove-dirty'',
      ''markdown:prepare'', ''generate'', ''start:swagger'', ''start:prism'',
      ''start:browser'', ''start'']"
  by (simp add: scripts_def)

lemma scripts_distinct: "distinct (map fst (scripts f n))"
  unfolding scripts_keys by simp

lemma scripts_nonempty: "(key, val) \<in> set (scripts f n) \<Longrightarrow> key \<noteq> [] \<and> val \<noteq> []"
  by (auto simp add: scripts_def)

subsection \<open>Three example runs\<close>

lemma example_run:
  "(case run example_host example_tree (Some ''spec.yaml'') of
      (out, st) \<Rightarrow>
        out = Rejected ENOENT
        \<and> calls st =
            [MakeDir ''api-spec/v2-0-0/open-api'', MakeDir ''api-spec/v2-0-0/swagger-stub'',
             MakeDir ''api-spec/v2-0-0/html-docs'', Exec ''npm init -y'']
            @ map (\<lambda>(key, val). AddScript key val) (scripts ''spec-v2-0-0.yaml'' ''spec-v2-0-0'')
            @ [CopyFile ''spec.yaml'' ''api-spec/v2-0-0/open-api/spec.yaml'',
               Rename ''api-spec/v2-0-0/ozpen-api/spec.yaml''
                 ''api-spec/v2-0-0/open-api/spec-v2-0-0.yaml'']
        \<and> remdups (filter (\<lambda>p. butlast p = [''work'', ''api-spec'', ''v2-0-0'', ''open-api''])
                     (map fst (fs st)))
            = [[''work'', ''api-spec'', ''v2-0-0'', ''open-api'', ''spec.yaml'']]
        \<and> map_of (fs st) [''work'', ''api-spec'', ''v2-0-0'', ''open-api'', ''spec.yaml'']
            = map_of example_tree [''work'', ''spec.yaml'']
        \<and> map_of (fs st) [''work'', ''api-spec'', ''v2-0-0'', ''open-api'', ''spec-v2-0-0.yaml'']
            = None
        \<and> map_of (fs st) [''work'', ''api-spec'', ''v2-0-0'', ''package.json''] = None
        \<and> map_of (fs st) [''work'', ''package.json''] \<noteq> None)"
  by code_simp

lemma nested_run:
  "(case run example_host example_tree (Some ''a.yml/b.yml'') of
      (out, st) \<Rightarrow>
        out = Rejected ENOENT
        \<and> calls st =
            [MakeDir ''api-spec/v1/open-api'', MakeDir ''api-spec/v1/swagger-stub'',
             MakeDir ''api-spec/v1/html-docs'', Exec ''npm init -y'']
            @ map (\<lambda>(key, val). AddScript key val) (scripts ''a-v1.yml/b.yml'' ''a-v1/b.yml'')
            @ [CopyFile ''a.yml/b.yml'' ''api-spec/v1/open-api/a.yml/b.yml''])"
  by code_simp

lemma json_run:
  \<open>(case run example_host json_tree (Some ''spec.json'') of
      (out, st) \<Rightarrow>
        take 1 (calls st) = [MakeDir ''api-spec/v"version": "1-0-0"/open-api'']
        \<and> map_of (fs st) [''work'', ''api-spec'', ''v"version": "1-0-0"''] = Some Dir)\<close>
  by code_simp

subsection \<open>The manifest after scaffolding\<close>

lemma map_of_set_script: "map_of (set_script key val s) = (map_of s)(key \<mapsto> val)"
  by (induction s) auto

lemma add_script_ok:
  "add_script t wd key val = (None, t') \<Longrightarrow>
     \<exists>s. map_of t (wd @ [''package.json'']) = Some (File (Manifest s))
         \<and> t' = (wd @ [''package.json''], File (Manifest (set_script key val s))) # t"
  by (auto simp add: add_script_def
      split: if_splits option.splits node.splits content.splits list.splits)

lemma register_all:
  assumes "run_stmts env (map (\<lambda>(key, val). Do (AddScript key val)) kvs) st = (None, st')"
    and "kvs \<noteq> []"
  shows "\<exists>s s'. map_of (fs st) (cwd env @ [''package.json'']) = Some (File (Manifest s))
           \<and> map_of (fs st') (cwd env @ [''package.json'']) = Some (File (Manifest s'))
           \<and> (\<forall>x. x \<notin> fst ` set kvs \<longrightarrow> map_of s' x = map_of s x)
           \<and> (distinct (map fst kvs) \<longrightarrow> (\<forall>(key, val)\<in>set kvs. map_of s' key = Some val))"
  using assms
proof (induction kvs arbitrary: st)
  case Nil
  then show ?case by simp
next
  case (Cons kv rest)
  obtain key val where kv: "kv = (key, val)" by (cases kv)
  obtain e1 st1 where d: "do_call env (AddScript key val) st = (e1, st1)"
    by (cases "do_call env (AddScript key val) st")
  from Cons.prems(1) kv d have e1: "e1 = None" by (cases e1) simp_all
  from Cons.prems(1) kv d e1
  have rest: "run_stmts env (map (\<lambda>(key, val). Do (AddScript key val)) rest) st1 = (None, st')"
    by simp
  from d e1 have "add_script (fs st) (cwd env) key val = (None, fs st1)"
    by (auto simp add: do_call_def split: prod.splits)
  from add_script_ok [OF this] obtain s where
    s: "map_of (fs st) (cwd env @ [''package.json'']) = Some (File (Manifest s))"
    and st1: "fs st1 = (cwd env @ [''package.json''], File (Manifest (set_script key val s))) # fs st"
    by blast
  let ?s1 = "set_script key val s"
  from st1 have m1: "map_of (fs st1) (cwd env @ [''package.json'']) = Some (File (Manifest ?s1))"
    by simp
  show ?case
  proof (cases "rest = []")
    case True
    with rest have "st' = st1" by simp
    with s m1 kv True show ?thesis by (auto simp add: map_of_set_script)
  next
    case False
    from Cons.IH [OF rest False] m1 obtain s' where
      b: "map_of (fs st') (cwd env @ [''package.json'']) = Some (File (Manifest s'))"
      and keep: "\<forall>x. x \<notin> fst ` set rest \<longrightarrow> map_of s' x = map_of ?s1 x"
      and got: "distinct (map fst rest) \<longrightarrow> (\<forall>(key, val)\<in>set rest. map_of s' key = Some val)"
      by auto
    have k1: "\<forall>x. x \<notin> fst ` set (kv # rest) \<longrightarrow> map_of s' x = map_of s x"
      using keep kv by (auto simp add: map_of_set_script)
    have k2: "distinct (map fst (kv # rest)) \<longrightarrow> (\<forall>(key, val)\<in>set (kv # rest). map_of s' key = Some val)"
    proof
      assume dist: "distinct (map fst (kv # rest))"
      then have "key \<notin> fst ` set rest" and "distinct (map fst rest)" using kv by auto
      with keep got have "map_of s' key = Some val" and "\<forall>(key, val)\<in>set rest. map_of s' key = Some val"
        by (auto simp add: map_of_set_script)
      then show "\<forall>(key, val)\<in>set (kv # rest). map_of s' key = Some val" using kv by auto
    qed
    from s b k1 k2 show ?thesis by blast
  qed
qed

lemma scaffolding_has_no_copy:
  "CopyFile src dst \<notin> set (concat (map stmt_calls (make_directories v @ add_scripts w n)))"
  by (auto simp add: make_directories_def add_scripts_def script_stmt_calls)

lemma scaffolding_calls:
  "concat (map stmt_calls (make_directories v @ add_scripts w n)) =
     [MakeDir (''api-spec/'' @ v @ ''/open-api''),
      MakeDir (''api-spec/'' @ v @ ''/swagger-stub''),
      MakeDir (''api-spec/'' @ v @ ''/html-docs''),
      Exec ''npm init -y'']
     @ map (\<lambda>(key, val). AddScript key val) (scripts w n)"
  by (simp add: make_directories_def add_scripts_def script_stmt_calls)

lemma relocation_has_no_registration:
  "AddScript key val \<notin> set (concat (map stmt_calls (relocate f v w @ install_and_generate v)))"
  by (auto simp add: relocate_def install_and_generate_def)

lemma run_reaches_generate:
  assumes "calls (snd (run env t a)) \<noteq> []"
  shows "\<exists>f ls v out. a = Some f \<and> readLines env t f = Inr ls
           \<and> eachLine ls (''0'', []) = (v, out) \<and> v \<noteq> ''0''
           \<and> run env t a =
               generate env f (extname f) v
                 \<lparr>fs = t,
                  console = [(Info, ''Starting OpenAPI Stub Generation...''),
                             (Info, ''Getting Version Number...'')] @ out,
                  calls = []\<rparr>"
proof -
  from assms have nf: "\<not> falsy a" by (rule run_not_falsy)
  then obtain f where a: "a = Some f" by (auto simp add: falsy_def)
  let ?st0 = "\<lparr>fs = t, console = [(Info, ''Starting OpenAPI Stub Generation...'')], calls = []\<rparr>"
  have r: "run env t a = get_version env f (extname f) ?st0"
    using assms unfolding a run_Some by (simp add: Let_def say_def split: if_splits)
  obtain ls where ls: "readLines env t f = Inr ls"
    using assms unfolding r by (cases "readLines env t f") (simp_all add: get_version_def Let_def say_def)
  obtain v out where vo: "eachLine ls (''0'', []) = (v, out)" by (cases "eachLine ls (''0'', [])")
  have v0: "v \<noteq> ''0''"
    using assms ls vo unfolding r by (auto simp add: get_version_def Let_def say_def)
  have g: "run env t a = generate env f (extname f) v
             \<lparr>fs = t,
              console = [(Info, ''Starting OpenAPI Stub Generation...''),
                         (Info, ''Getting Version Number...'')] @ out,
              calls = []\<rparr>"
    using ls vo v0 unfolding r by (simp add: get_version_def Let_def say_def)
  from a ls vo v0 g show ?thesis by blast
qed

lemma generate_reaches_pipeline:
  "calls (snd (generate env f x v st)) \<noteq> calls st \<Longrightarrow>
     generate env f x v st =
       (case run_stmts env (pipeline f x v) st of
          (Some e, st') \<Rightarrow> (Rejected e, st')
        | (None, st') \<Rightarrow> (Completed, st'))"
  by (auto simp add: generate_def say_def split: if_splits)

lemma pipeline_split:
  "pipeline f x v =
     (make_directories v
      @ add_scripts (fileNameWithVersion f x v) (fileNameWithVersionNoExtension f x v))
     @ (relocate f v (fileNameWithVersion f x v) @ install_and_generate v)"
  by (simp add: pipeline_def)

lemma reached_relocation:
  assumes "CopyFile src dst \<in> set (calls (snd (run env t a)))"
  shows "\<exists>f ls v out st1. a = Some f \<and> readLines env t f = Inr ls
           \<and> eachLine ls (''0'', []) = (v, out)
           \<and> run_stmts env
                (make_directories v
                 @ add_scripts (fileNameWithVersion f (extname f) v)
                     (fileNameWithVersionNoExtension f (extname f) v))
                \<lparr>fs = t,
                 console = [(Info, ''Starting OpenAPI Stub Generation...''),
                            (Info, ''Getting Version Number...'')] @ out,
                 calls = []\<rparr> = (None, st1)
           \<and> run env t a =
               (case run_stmts env
                       (relocate f v (fileNameWithVersion f (extname f) v)
                        @ install_and_generate v) st1 of
                  (Some e, st') \<Rightarrow> (Rejected e, st')
                | (None, st') \<Rightarrow> (Completed, st'))"
proof -
  from assms have ne: "calls (snd (run env t a)) \<noteq> []" by auto
  from run_reaches_generate [OF ne] obtain f ls v out where a: "a = Some f"
    and ls: "readLines env t f = Inr ls" and vo: "eachLine ls (''0'', []) = (v, out)"
    and g: "run env t a = generate env f (extname f) v
             \<lparr>fs = t,
              console = [(Info, ''Starting OpenAPI Stub Generation...''),
                         (Info, ''Getting Version Number...'')] @ out,
              calls = []\<rparr>"
    by blast
  let ?st0 = "\<lparr>fs = t,
              console = [(Info, ''Starting OpenAPI Stub Generation...''),
                         (Info, ''Getting Version Number...'')] @ out,
              calls = []\<rparr>"
  let ?w = "fileNameWithVersion f (extname f) v"
  let ?n = "fileNameWithVersionNoExtension f (extname f) v"
  let ?scaffold = "make_directories v @ add_scripts ?w ?n"
  let ?tail = "relocate f v ?w @ install_and_generate v"
  from ne g have "calls (snd (generate env f (extname f) v ?st0)) \<noteq> calls ?st0" by simp
  from generate_reaches_pipeline [OF this] g
  have p: "run env t a =
       (case run_stmts env (pipeline f (extname f) v) ?st0 of
          (Some e, st') \<Rightarrow> (Rejected e, st')
        | (None, st') \<Rightarrow> (Completed, st'))"
    by simp
  have ap: "run_stmts env (pipeline f (extname f) v) ?st0 =
       (case run_stmts env ?scaffold ?st0 of
          (Some e, st') \<Rightarrow> (Some e, st')
        | (None, st') \<Rightarrow> run_stmts env ?tail st')"
    unfolding pipeline_split by (rule run_stmts_append)
  obtain e1 st1 where s1: "run_stmts env ?scaffold ?st0 = (e1, st1)"
    by (cases "run_stmts env ?scaffold ?st0")
  have "e1 = None"
  proof (cases e1)
    case None
    then show ?thesis .
  next
    case (Some e)
    with s1 have "run_stmts env (pipeline f (extname f) v) ?st0 = (Some e, st1)"
      unfolding ap by simp
    with p have "calls (snd (run env t a)) = calls st1" by simp
    moreover from run_stmts_effect [OF s1] obtain k where
      "calls st1 = take k (concat (map stmt_calls ?scaffold))" by auto
    ultimately have "CopyFile src dst \<in> set (concat (map stmt_calls ?scaffold))"
      using assms by (metis in_set_takeD)
    with scaffolding_has_no_copy show ?thesis by blast
  qed
  with s1 have s1': "run_stmts env ?scaffold ?st0 = (None, st1)" by simp
  then have "run_stmts env (pipeline f (extname f) v) ?st0 = run_stmts env ?tail st1"
    unfolding ap by simp
  with p have "run env t a =
       (case run_stmts env ?tail st1 of
          (Some e, st') \<Rightarrow> (Rejected e, st')
        | (None, st') \<Rightarrow> (Completed, st'))"
    by simp
  with a ls vo s1' show ?thesis by blast
qed

text \<open>
  Claim C7. A run has completed the scaffolding step (directories, new manifest, script
  registration) when it goes on to the copy of line 114. For every such run, the state
  after the last registration has a manifest that holds every documented script key with a
  command that is not empty, and the registrations of the run are those of the source, in
  order, no key twice.
\<close>

theorem manifest_after_scaffolding:
  assumes "CopyFile src dst \<in> set (calls (snd (run env t a)))"
  shows "\<exists>f ls v out w n st1 s rest.
           a = Some f \<and> readLines env t f = Inr ls \<and> eachLine ls (''0'', []) = (v, out)
           \<and> w = fileNameWithVersion f (extname f) v
           \<and> n = fileNameWithVersionNoExtension f (extname f) v
           \<and> run_stmts env (make_directories v @ add_scripts w n)
                \<lparr>fs = t,
                 console = [(Info, ''Starting OpenAPI Stub Generation...''),
                            (Info, ''Getting Version Number...'')] @ out,
                 calls = []\<rparr> = (None, st1)
           \<and> run env t a =
               (case run_stmts env (relocate f v w @ install_and_generate v) st1 of
                  (Some e, st') \<Rightarrow> (Rejected e, st')
                | (None, st') \<Rightarrow> (Completed, st'))
           \<and> map_of (fs st1) (cwd env @ [''package.json'']) = Some (File (Manifest s))
           \<and> (\<forall>key \<in> {''make:swagger'', ''generate:swagger'', ''delete:swagger'',
                         ''make:docs'', ''generate:docs'', ''delete:docs'',
                         ''make:markdown'', ''generate:markdown'', ''delete:markdown'',
                         ''generate'', ''start'', ''start:swagger'', ''start:prism'',
                         ''start:browser''}.
                 \<exists>val. map_of s key = Some val \<and> val \<noteq> [] \<and> (key, val) \<in> set (scripts w n))
           \<and> calls (snd (run env t a)) =
                [MakeDir (''api-spec/'' @ v @ ''/open-api''),
                 MakeDir (''api-spec/'' @ v @ ''/swagger-stub''),
                 MakeDir (''api-spec/'' @ v @ ''/html-docs''),
                 Exec ''npm init -y'']
                @ map (\<lambda>(key, val). AddScript key val) (scripts w n) @ rest
           \<and> (\<forall>key val. AddScript key val \<notin> set rest)
           \<and> distinct (map fst (scripts w n))"
proof -
  from reached_relocation [OF assms] obtain f ls v out st1 where a: "a = Some f"
    and ls: "readLines env t f = Inr ls" and vo: "eachLine ls (''0'', []) = (v, out)"
    and sc: "run_stmts env
                (make_directories v
                 @ add_scripts (fileNameWithVersion f (extname f) v)
                     (fileNameWithVersionNoExtension f (extname f) v))
                \<lparr>fs = t,
                 console = [(Info, ''Starting OpenAPI Stub Generation...''),
                            (Info, ''Getting Version Number...'')] @ out,
                 calls = []\<rparr> = (None, st1)"
    and r: "run env t a =
               (case run_stmts env
                       (relocate f v (fileNameWithVersion f (extname f) v)
                        @ install_and_generate v) st1 of
                  (Some e, st') \<Rightarrow> (Rejected e, st')
                | (None, st') \<Rightarrow> (Completed, st'))"
    by blast
  let ?st0 = "\<lparr>fs = t,
              console = [(Info, ''Starting OpenAPI Stub Generation...''),
                         (Info, ''Getting Version Number...'')] @ out,
              calls = []\<rparr>"
  let ?w = "fileNameWithVersion f (extname f) v"
  let ?n = "fileNameWithVersionNoExtension f (extname f) v"
  let ?tail = "relocate f v ?w @ install_and_generate v"
  let ?pkg = "cwd env @ [''package.json'']"
  have ap: "run_stmts env (make_directories v @ add_scripts ?w ?n) ?st0 =
       (case run_stmts env (make_directories v) ?st0 of
          (Some e, st') \<Rightarrow> (Some e, st')
        | (None, st') \<Rightarrow> run_stmts env (add_scripts ?w ?n) st')"
    by (rule run_stmts_append)
  obtain e0 st0' where m: "run_stmts env (make_directories v) ?st0 = (e0, st0')"
    by (cases "run_stmts env (make_directories v) ?st0")
  from sc m have e0: "e0 = None" unfolding ap by (cases e0) simp_all
  from sc m e0 have "run_stmts env (add_scripts ?w ?n) st0' = (None, st1)"
    unfolding ap by simp
  then have reg: "run_stmts env (map (\<lambda>(key, val). Do (AddScript key val)) (scripts ?w ?n))
                    (say Info ''Adding NPM Scripts...'' st0') = (None, st1)"
    by (simp add: add_scripts_def)
  have ne: "scripts ?w ?n \<noteq> []" by (simp add: scripts_def)
  from register_all [OF reg ne] scripts_distinct [of ?w ?n] obtain s where
    fin: "map_of (fs st1) ?pkg = Some (File (Manifest s))"
    and got: "\<forall>(key, val)\<in>set (scripts ?w ?n). map_of s key = Some val"
    by blast
  have look: "\<exists>val. map_of s key = Some val \<and> val \<noteq> [] \<and> (key, val) \<in> set (scripts ?w ?n)"
    if k: "key \<in> set (map fst (scripts ?w ?n))" for key
  proof -
    from k obtain val where mem: "(key, val) \<in> set (scripts ?w ?n)" by auto
    with got have "map_of s key = Some val" by auto
    with scripts_nonempty [OF mem] mem show ?thesis by blast
  qed
  have docs: "\<forall>key \<in> {''make:swagger'', ''generate:swagger'', ''delete:swagger'',
                         ''make:docs'', ''generate:docs'', ''delete:docs'',
                         ''make:markdown'', ''generate:markdown'', ''delete:markdown'',
                         ''generate'', ''start'', ''start:swagger'', ''start:prism'',
                         ''start:browser''}.
                 \<exists>val. map_of s key = Some val \<and> val \<noteq> [] \<and> (key, val) \<in> set (scripts ?w ?n)"
  proof
    fix key :: string
    assume "key \<in> {''make:swagger'', ''generate:swagger'', ''delete:swagger'',
                         ''make:docs'', ''generate:docs'', ''delete:docs'',
                         ''make:markdown'', ''generate:markdown'', ''delete:markdown'',
                         ''generate'', ''start'', ''start:swagger'', ''start:prism'',
                         ''start:browser''}"
    then have "key \<in> set (map fst (scripts ?w ?n))" unfolding scripts_keys by auto
    then show "\<exists>val. map_of s key = Some val \<and> val \<noteq> [] \<and> (key, val) \<in> set (scripts ?w ?n)"
      by (rule look)
  qed
  from run_stmts_effect [OF sc]
  have c1: "calls st1 = concat (map stmt_calls (make_directories v @ add_scripts ?w ?n))"
    by simp
  obtain e2 st2 where t2: "run_stmts env ?tail st1 = (e2, st2)"
    by (cases "run_stmts env ?tail st1")
  from r t2 have "calls (snd (run env t a)) = calls st2" by (cases e2) simp_all
  moreover from run_stmts_effect [OF t2] obtain k where
    "calls st2 = calls st1 @ take k (concat (map stmt_calls ?tail))" by blast
  ultimately have tr: "calls (snd (run env t a)) =
                [MakeDir (''api-spec/'' @ v @ ''/open-api''),
                 MakeDir (''api-spec/'' @ v @ ''/swagger-stub''),
                 MakeDir (''api-spec/'' @ v @ ''/html-docs''),
                 Exec ''npm init -y'']
                @ map (\<lambda>(key, val). AddScript key val) (scripts ?w ?n)
                @ take k (concat (map stmt_calls ?tail))"
    unfolding c1 scaffolding_calls by simp
  have nr: "\<forall>key val. AddScript key val \<notin> set (take k (concat (map stmt_calls ?tail)))"
    using relocation_has_no_registration [of _ _ f v ?w] by (metis in_set_takeD)
  show ?thesis
    apply (rule exI [of _ f])
    apply (rule exI [of _ ls])
    apply (rule exI [of _ v])
    apply (rule exI [of _ out])
    apply (rule exI [of _ ?w])
    apply (rule exI [of _ ?n])
    apply (rule exI [of _ st1])
    apply (rule exI [of _ s])
    apply (rule exI [of _ "take k (concat (map stmt_calls ?tail))"])
    using a ls vo sc r fin docs tr nr scripts_distinct [of ?w ?n]
    by (intro conjI) (assumption | rule refl)+
qed

theorem manifest_after_scaffolding_witness:
  "CopyFile ''spec.yaml'' ''api-spec/v2-0-0/open-api/spec.yaml''
     \<in> set (calls (snd (run example_host example_tree (Some ''spec.yaml''))))
   \<and> (\<exists>v out w n st1 s val.
         eachLine [''openapi: 3.0.0'', ''info:'', ''  title: Pets'', ''  version: 2.0.0'', ''paths: {}'']
           (''0'', []) = (v, out)
         \<and> run_stmts example_host (make_directories v @ add_scripts w n)
              \<lparr>fs = example_tree,
               console = [(Info, ''Starting OpenAPI Stub Generation...''),
                          (Info, ''Getting Version Number...'')] @ out,
               calls = []\<rparr> = (None, st1)
         \<and> map_of (fs st1) (cwd example_host @ [''package.json'']) = Some (File (Manifest s))
         \<and> map_of s ''start:prism'' = Some val \<and> val \<noteq> [])"
proof -
  have h: "CopyFile ''spec.yaml'' ''api-spec/v2-0-0/open-api/spec.yaml''
     \<in> set (calls (snd (run example_host example_tree (Some ''spec.yaml''))))"
    using example_run by (simp add: case_prod_unfold)
  have rl: "readLines example_host example_tree ''spec.yaml''
       = Inr [''openapi: 3.0.0'', ''info:'', ''  title: Pets'', ''  version: 2.0.0'', ''paths: {}'']"
    by code_simp
  from manifest_after_scaffolding [OF h] obtain f ls v out w n st1 s where
    f: "Some ''spec.yaml'' = Some f"
    and ls: "readLines example_host example_tree f = Inr ls"
    and vo: "eachLine ls (''0'', []) = (v, out)"
    and sc: "run_stmts example_host (make_directories v @ add_scripts w n)
              \<lparr>fs = example_tree,
               console = [(Info, ''Starting OpenAPI Stub Generation...''),
                          (Info, ''Getting Version Number...'')] @ out,
               calls = []\<rparr> = (None, st1)"
    and m: "map_of (fs st1) (cwd example_host @ [''package.json'']) = Some (File (Manifest s))"
    and d: "\<forall>key \<in> {''make:swagger'', ''generate:swagger'', ''delete:swagger'',
                         ''make:docs'', ''generate:docs'', ''delete:docs'',
                         ''make:markdown'', ''generate:markdown'', ''delete:markdown'',
                         ''generate'', ''start'', ''start:swagger'', ''start:prism'',
                         ''start:browser''}.
                 \<exists>val. map_of s key = Some val \<and> val \<noteq> [] \<and> (key, val) \<in> set (scripts w n)"
    by (elim exE conjE) (rule that; assumption)
  from f ls rl have lines: "ls = [''openapi: 3.0.0'', ''info:'', ''  title: Pets'', ''  version: 2.0.0'', ''paths: {}'']"
    by simp
  have "\<exists>val. map_of s ''start:prism'' = Some val \<and> val \<noteq> []
           \<and> (''start:prism'', val) \<in> set (scripts w n)"
    using d by (rule bspec) simp
  then obtain val where val: "map_of s ''start:prism'' = Some val" "val \<noteq> []" by blast
  from vo sc m val have "\<exists>v out w n st1 s val.
         eachLine [''openapi: 3.0.0'', ''info:'', ''  title: Pets'', ''  version: 2.0.0'', ''paths: {}'']
           (''0'', []) = (v, out)
         \<and> run_stmts example_host (make_directories v @ add_scripts w n)
              \<lparr>fs = example_tree,
               console = [(Info, ''Starting OpenAPI Stub Generation...''),
                          (Info, ''Getting Version Number...'')] @ out,
               calls = []\<rparr> = (None, st1)
         \<and> map_of (fs st1) (cwd example_host @ [''package.json'']) = Some (File (Manifest s))
         \<and> map_of s ''start:prism'' = Some val \<and> val \<noteq> []"
    unfolding lines by blast
  with h show ?thesis by (rule conjI)
qed

text \<open>Conversely, a run whose scaffolding step completes goes on to the copy.\<close>

lemma first_call_is_made:
  "c \<in> set (calls (snd (run_stmts env (Log msg # Do c # others) st)))"
proof -
  obtain e st' where d: "do_call env c (say Info msg st) = (e, st')"
    by (cases "do_call env c (say Info msg st)")
  from do_call_effect [OF d] have c: "c \<in> set (calls st')" by simp
  show ?thesis
  proof (cases e)
    case None
    obtain e2 st2 where m: "run_stmts env others st' = (e2, st2)"
      by (cases "run_stmts env others st'")
    from run_stmts_effect [OF m] c have "c \<in> set (calls st2)" by auto
    with d None m show ?thesis by simp
  next
    case (Some x)
    with d c show ?thesis by simp
  qed
qed

lemma completed_scaffolding_reaches_copy:
  assumes "\<not> falsy (Some f)" and "existsSync t (cwd env) f"
    and "drop 1 (extname f) \<in> openApiExtensions"
    and "readLines env t f = Inr ls"
    and "eachLine ls (''0'', []) = (v, out)"
    and "v \<noteq> ''0''"
    and "\<not> existsSync t (cwd env) (''./api-spec/'' @ v)"
    and "run_stmts env
           (make_directories v
            @ add_scripts (fileNameWithVersion f (extname f) v)
                (fileNameWithVersionNoExtension f (extname f) v))
           \<lparr>fs = t,
            console = [(Info, ''Starting OpenAPI Stub Generation...''),
                       (Info, ''Getting Version Number...'')] @ out,
            calls = []\<rparr> = (None, st1)"
  shows "CopyFile f (''api-spec/'' @ v @ ''/open-api/'' @ f)
           \<in> set (calls (snd (run env t (Some f))))"
proof -
  let ?st0 = "\<lparr>fs = t,
              console = [(Info, ''Starting OpenAPI Stub Generation...''),
                         (Info, ''Getting Version Number...'')] @ out,
              calls = []\<rparr>"
  let ?w = "fileNameWithVersion f (extname f) v"
  let ?n = "fileNameWithVersionNoExtension f (extname f) v"
  let ?scaffold = "make_directories v @ add_scripts ?w ?n"
  let ?tail = "relocate f v ?w @ install_and_generate v"
  have ap: "run_stmts env (pipeline f (extname f) v) ?st0 =
       (case run_stmts env ?scaffold ?st0 of
          (Some e, st') \<Rightarrow> (Some e, st')
        | (None, st') \<Rightarrow> run_stmts env ?tail st')"
    unfolding pipeline_split by (rule run_stmts_append)
  from assms(1-7) have "run env t (Some f) =
       (case run_stmts env (pipeline f (extname f) v) ?st0 of
          (Some e, st') \<Rightarrow> (Rejected e, st')
        | (None, st') \<Rightarrow> (Completed, st'))"
    by (simp add: run_def get_version_def generate_def Let_def say_def)
  with assms(8) have r: "run env t (Some f) =
       (case run_stmts env ?tail st1 of
          (Some e, st') \<Rightarrow> (Rejected e, st')
        | (None, st') \<Rightarrow> (Completed, st'))"
    unfolding ap by simp
  obtain e2 st2 where t2: "run_stmts env ?tail st1 = (e2, st2)"
    by (cases "run_stmts env ?tail st1")
  from r t2 have "calls (snd (run env t (Some f))) = calls (snd (run_stmts env ?tail st1))"
    by (cases e2) simp_all
  moreover have "CopyFile f (''api-spec/'' @ v @ ''/open-api/'' @ f)
      \<in> set (calls (snd (run_stmts env ?tail st1)))"
    unfolding relocate_def append_Cons by (rule first_call_is_made)
  ultimately show ?thesis by simp
qed

subsection \<open>The version token\<close>

lemma replaceAll_chr_delete: "replaceAll_chr c [] s = filter (\<lambda>x. x \<noteq> c) s"
  by (induction s) (simp_all add: replaceAll_chr_def)

lemma replaceAll_chr_single: "replaceAll_chr c [r] s = map (\<lambda>x. if x = c then r else x) s"
  by (induction s) (simp_all add: replaceAll_chr_def)

lemma trim_subset: "set (trim s) \<subseteq> set s"
  by (auto simp add: trim_def dest!: set_dropWhileD)

lemma trim_last: "trim s \<noteq> [] \<Longrightarrow> \<not> is_space (last (trim s))"
  by (simp add: trim_def last_rev hd_dropWhile)

lemma trim_hd:
  assumes "trim s \<noteq> []"
  shows "\<not> is_space (hd (trim s))"
proof -
  let ?xs = "dropWhile is_space s"
  have "rev (takeWhile is_space (rev ?xs) @ dropWhile is_space (rev ?xs)) =
        rev (dropWhile is_space (rev ?xs)) @ rev (takeWhile is_space (rev ?xs))"
    by (rule rev_append)
  then have split: "?xs = trim s @ rev (takeWhile is_space (rev ?xs))"
    unfolding trim_def by (simp only: takeWhile_dropWhile_id rev_rev_ident)
  with assms have "hd ?xs = hd (trim s)" by (metis hd_append2)
  moreover from assms split have "?xs \<noteq> []" by (metis append_is_Nil_conv)
  ultimately show ?thesis by (metis hd_dropWhile)
qed

lemma prefix_shorten: "prefix p (u @ w) \<Longrightarrow> length p \<le> length u \<Longrightarrow> prefix p u"
  by (auto simp add: prefix_append)

lemma indexOf_first:
  "pat \<noteq> [] \<Longrightarrow> \<not> includes_str (a @ butlast pat) pat \<Longrightarrow>
     indexOf pat (a @ pat @ b) = Some (length a)"
proof (induction a)
  case Nil
  then show ?case by (cases pat) simp_all
next
  case (Cons x a)
  from Cons.prems(2) have np: "\<not> prefix pat (x # a @ butlast pat)"
    and rest: "\<not> includes_str (a @ butlast pat) pat"
    by (auto simp add: includes_str_def split: if_splits)
  have "\<not> prefix pat (x # a @ pat @ b)"
  proof
    assume p: "prefix pat (x # a @ pat @ b)"
    from Cons.prems(1) have "x # a @ pat @ b = (x # a @ butlast pat) @ (last pat # b)"
      by simp
    with p have "prefix pat ((x # a @ butlast pat) @ (last pat # b))" by simp
    moreover from Cons.prems(1) have "length pat \<le> length (x # a @ butlast pat)" by simp
    ultimately have "prefix pat (x # a @ butlast pat)" by (rule prefix_shorten)
    with np show False by simp
  qed
  with Cons.IH [OF Cons.prems(1) rest] show ?case by simp
qed

lemma replace_str_first:
  "pat \<noteq> [] \<Longrightarrow> \<not> includes_str (a @ butlast pat) pat \<Longrightarrow>
     replace_str (a @ pat @ b) pat [] = a @ b"
  by (simp add: replace_str_def indexOf_first)

text \<open>
  What line 51 does to the first line that contains \<^verbatim>\<open>version\<close>: the first occurrence of
  the text \<^verbatim>\<open>version:\<close> (if there is one) and every single quote are removed, dots become
  dashes, white space is trimmed at both ends and \<^verbatim>\<open>v\<close> is put in front.
\<close>

lemma version_token_from_first_match:
  assumes "\<forall>l\<in>set pre. \<not> includes_str l ''version''"
    and "includes_str line ''version''"
  shows "\<exists>tok. fst (eachLine (pre @ line # post) (''0'', out)) = CHR ''v'' # tok
           \<and> tok = trim (map (\<lambda>c. if c = CHR ''.'' then CHR ''-'' else c)
                          (filter (\<lambda>c. c \<noteq> CHR 0x27) (replace_str line ''version:'' [])))
           \<and> CHR ''.'' \<notin> set tok \<and> CHR 0x27 \<notin> set tok
           \<and> (tok \<noteq> [] \<longrightarrow> \<not> is_space (hd tok) \<and> \<not> is_space (last tok))
           \<and> (\<forall>a b. line = a @ ''version:'' @ b \<and> \<not> includes_str (a @ ''version'') ''version:''
                 \<longrightarrow> replace_str line ''version:'' [] = a @ b)"
proof -
  let ?tok = "trim (map (\<lambda>c. if c = CHR ''.'' then CHR ''-'' else c)
                          (filter (\<lambda>c. c \<noteq> CHR 0x27) (replace_str line ''version:'' [])))"
  have v: "version_of_line line = CHR ''v'' # ?tok"
    by (simp add: version_of_line_def replaceAll_chr_delete replaceAll_chr_single)
  from eachLine_first_match [OF assms, of post "''0''" out] v
  have a: "fst (eachLine (pre @ line # post) (''0'', out)) = CHR ''v'' # ?tok" by simp
  have b: "CHR ''.'' \<notin> set ?tok \<and> CHR 0x27 \<notin> set ?tok"
    using trim_subset [of "map (\<lambda>c. if c = CHR ''.'' then CHR ''-'' else c)
                          (filter (\<lambda>c. c \<noteq> CHR 0x27) (replace_str line ''version:'' []))"]
    by auto
  have c: "?tok \<noteq> [] \<longrightarrow> \<not> is_space (hd ?tok) \<and> \<not> is_space (last ?tok)"
    using trim_hd trim_last by blast
  have d: "\<forall>a b. line = a @ ''version:'' @ b \<and> \<not> includes_str (a @ ''version'') ''version:''
                 \<longrightarrow> replace_str line ''version:'' [] = a @ b"
    using replace_str_first [of "''version:''"] by simp
  from a b c d show ?thesis by blast
qed

text \<open>
  Claim C8. The version token should be the text of the first line that contains
  \<^verbatim>\<open>version\<close> with the key and the quote characters removed, dots turned into dashes,
  trimmed, after \<^verbatim>\<open>v\<close>. For a spec file in JSON, which line 37 accepts, the key
  \<^verbatim>\<open>"version":\<close> and the double quotes stay in the token, and the token becomes a
  directory name; double quotes around the value in a YAML file stay as well.
\<close>

theorem json_version_line_keeps_key_and_quotes:
  \<open>fst (eachLine [''{'', ''  "openapi": "3.0.0",'', ''  "info": {'', ''    "title": "Pets",'',
                      ''    "version": "1.0.0"'', ''  },'', ''  "paths": {}'', ''}''] (''0'', []))
     = ''v"version": "1-0-0"''
   \<and> includes_str ''v"version": "1-0-0"'' ''version''
   \<and> CHR 0x22 \<in> set ''v"version": "1-0-0"''
   \<and> fst (eachLine [''openapi: 3.0.0'', ''info:'', ''  version: "1.0.0"''] (''0'', []))
     = ''v"1-0-0"''
   \<and> MakeDir ''api-spec/v"version": "1-0-0"/open-api''
       \<in> set (calls (snd (run example_host json_tree (Some ''spec.json''))))
   \<and> map_of (fs (snd (run example_host json_tree (Some ''spec.json''))))
         [''work'', ''api-spec'', ''v"version": "1-0-0"''] = Some Dir\<close>
proof -
  have a: \<open>fst (eachLine [''{'', ''  "openapi": "3.0.0",'', ''  "info": {'', ''    "title": "Pets",'',
                      ''    "version": "1.0.0"'', ''  },'', ''  "paths": {}'', ''}''] (''0'', []))
     = ''v"version": "1-0-0"''\<close>
    by code_simp
  have b: \<open>includes_str ''v"version": "1-0-0"'' ''version''\<close>
    by (simp add: includes_str_def)
  have c: \<open>CHR 0x22 \<in> set ''v"version": "1-0-0"''\<close> by simp
  have d: \<open>fst (eachLine [''openapi: 3.0.0'', ''info:'', ''  version: "1.0.0"''] (''0'', []))
     = ''v"1-0-0"''\<close>
    by code_simp
  have e: \<open>take 1 (calls (snd (run example_host json_tree (Some ''spec.json''))))
       = [MakeDir ''api-spec/v"version": "1-0-0"/open-api'']\<close>
    and f: \<open>map_of (fs (snd (run example_host json_tree (Some ''spec.json''))))
         [''work'', ''api-spec'', ''v"version": "1-0-0"''] = Some Dir\<close>
    using json_run by (simp_all add: case_prod_unfold)
  from e have g: \<open>MakeDir ''api-spec/v"version": "1-0-0"/open-api''
       \<in> set (calls (snd (run example_host json_tree (Some ''spec.json''))))\<close>
    by (metis in_set_takeD list.set_intros(1))
  from a b c d g f show ?thesis by (intro conjI)
qed

subsection \<open>The abort for a missing version\<close>

lemma generate_keeps_errors:
  "(Err, no_version_msg) \<in> set (console (snd (generate env f x v st)))
     \<longleftrightarrow> (Err, no_version_msg) \<in> set (console st)"
proof -
  obtain e st' where rs: "run_stmts env (pipeline f x v) st = (e, st')"
    by (cases "run_stmts env (pipeline f x v) st")
  from run_stmts_effect [OF rs] have "quiet st st'" by blast
  then have q: "(Err, no_version_msg) \<in> set (console st') \<longleftrightarrow> (Err, no_version_msg) \<in> set (console st)"
    by (fastforce simp add: quiet_def)
  have m1: "invalid_file_msg f \<noteq> no_version_msg"
    by (simp add: invalid_file_msg_def no_version_msg_def)
  have m2: "exists_msg v \<noteq> no_version_msg"
    by (simp add: exists_msg_def no_version_msg_def)
  from rs q m1 m2 show ?thesis
    by (cases e) (simp_all add: generate_def say_def)
qed

text \<open>
  Claim C9. For a spec file that passes validation and is read as the lines \<open>ls\<close>, the
  run aborts with the error \<^verbatim>\<open>No version number found. Aborting!\<close> (it prints the error
  and returns, with the file system as it was and no call made) exactly when no line
  contains \<^verbatim>\<open>version\<close>: a token taken from a line starts with \<^verbatim>\<open>v\<close>, so it is never the
  sentinel \<^verbatim>\<open>"0"\<close>, and no later statement prints that error.
\<close>

theorem no_version_abort_iff:
  assumes "\<not> falsy (Some f)" and "existsSync t (cwd env) f"
    and "drop 1 (extname f) \<in> openApiExtensions"
    and "readLines env t f = Inr ls"
  shows "(run env t (Some f) =
            (Returned, \<lparr>fs = t,
                        console = [(Info, ''Starting OpenAPI Stub Generation...''),
                                   (Info, ''Getting Version Number...''),
                                   (Err, no_version_msg)],
                        calls = []\<rparr>)
            \<longleftrightarrow> (\<forall>l\<in>set ls. \<not> includes_str l ''version''))
         \<and> ((Err, no_version_msg) \<in> set (console (snd (run env t (Some f))))
            \<longleftrightarrow> (\<forall>l\<in>set ls. \<not> includes_str l ''version''))
         \<and> (fst (eachLine ls (''0'', [])) = ''0'' \<longleftrightarrow> (\<forall>l\<in>set ls. \<not> includes_str l ''version''))
         \<and> (\<forall>line. hd (version_of_line line) = CHR ''v'' \<and> version_of_line line \<noteq> ''0'')"
proof -
  let ?st = "\<lparr>fs = t, console = [(Info, ''Starting OpenAPI Stub Generation...''),
                                   (Info, ''Getting Version Number...'')], calls = []\<rparr>"
  let ?abort = "(Returned, \<lparr>fs = t,
                        console = [(Info, ''Starting OpenAPI Stub Generation...''),
                                   (Info, ''Getting Version Number...''),
                                   (Err, no_version_msg)],
                        calls = []\<rparr>)"
  have tok: "\<forall>line. hd (version_of_line line) = CHR ''v'' \<and> version_of_line line \<noteq> ''0''"
    by (simp add: version_of_line_def)
  from eachLine_cases [of ls "''0''" "[]"]
  show ?thesis
  proof
    assume none: "eachLine ls (''0'', []) = (''0'', []) \<and> (\<forall>l\<in>set ls. \<not> includes_str l ''version'')"
    with assms have "run env t (Some f) = ?abort"
      by (simp add: run_def get_version_def Let_def say_def)
    with none tok show ?thesis by simp
  next
    assume "\<exists>pre line post. ls = pre @ line # post \<and> (\<forall>l\<in>set pre. \<not> includes_str l ''version'')
        \<and> includes_str line ''version''
        \<and> eachLine ls (''0'', []) =
            (version_of_line line, [] @ [(Info, ''Version Number Found: '' @ version_of_line line)])"
    then obtain pre line post where ls: "ls = pre @ line # post"
      and inc: "includes_str line ''version''"
      and el: "eachLine ls (''0'', []) =
            (version_of_line line, [(Info, ''Version Number Found: '' @ version_of_line line)])"
      by auto
    from tok have ne: "version_of_line line \<noteq> ''0''" by simp
    from assms el ne have "run env t (Some f) =
        generate env f (extname f) (version_of_line line)
          (?st\<lparr>console := console ?st @ [(Info, ''Version Number Found: '' @ version_of_line line)]\<rparr>)"
      by (simp add: run_def get_version_def Let_def say_def)
    then have no: "(Err, no_version_msg) \<notin> set (console (snd (run env t (Some f))))"
      by (simp add: generate_keeps_errors)
    then have "run env t (Some f) \<noteq> ?abort" by auto
    moreover from ls inc have "\<not> (\<forall>l\<in>set ls. \<not> includes_str l ''version'')" by auto
    ultimately show ?thesis using no el ne tok by simp
  qed
qed

theorem no_version_abort_iff_witness:
  "\<not> falsy (Some ''spec.yaml'') \<and> existsSync example_tree (cwd example_host) ''spec.yaml''
   \<and> drop 1 (extname ''spec.yaml'') \<in> openApiExtensions
   \<and> readLines example_host example_tree ''spec.yaml''
       = Inr [''openapi: 3.0.0'', ''info:'', ''  title: Pets'', ''  version: 2.0.0'', ''paths: {}'']
   \<and> (Err, no_version_msg)
       \<notin> set (console (snd (run example_host example_tree (Some ''spec.yaml''))))
   \<and> \<not> falsy (Some ''plain.yaml'') \<and> existsSync example_tree (cwd example_host) ''plain.yaml''
   \<and> drop 1 (extname ''plain.yaml'') \<in> openApiExtensions
   \<and> readLines example_host example_tree ''plain.yaml'' = Inr [''openapi: 3.0.0'', ''paths: {}'']
   \<and> run example_host example_tree (Some ''plain.yaml'') =
        (Returned, \<lparr>fs = example_tree,
                    console = [(Info, ''Starting OpenAPI Stub Generation...''),
                               (Info, ''Getting Version Number...''),
                               (Err, no_version_msg)],
                    calls = []\<rparr>)"
proof -
  have a1: "\<not> falsy (Some ''spec.yaml'')" by (simp add: falsy_def)
  have a2: "existsSync example_tree (cwd example_host) ''spec.yaml''" by code_simp
  have a3: "drop 1 (extname ''spec.yaml'') \<in> openApiExtensions" by code_simp
  have a4: "readLines example_host example_tree ''spec.yaml''
       = Inr [''openapi: 3.0.0'', ''info:'', ''  title: Pets'', ''  version: 2.0.0'', ''paths: {}'']"
    by code_simp
  have a5: "\<not> (\<forall>l\<in>set [''openapi: 3.0.0'', ''info:'', ''  title: Pets'', ''  version: 2.0.0'', ''paths: {}''].
              \<not> includes_str l ''version'')"
    by (simp add: includes_str_def)
  have b1: "\<not> falsy (Some ''plain.yaml'')" by (simp add: falsy_def)
  have b2: "existsSync example_tree (cwd example_host) ''plain.yaml''" by code_simp
  have b3: "drop 1 (extname ''plain.yaml'') \<in> openApiExtensions" by code_simp
  have b4: "readLines example_host example_tree ''plain.yaml'' = Inr [''openapi: 3.0.0'', ''paths: {}'']"
    by code_simp
  have b5: "\<forall>l\<in>set [''openapi: 3.0.0'', ''paths: {}'']. \<not> includes_str l ''version''"
    by (simp add: includes_str_def)
  note ta = no_version_abort_iff [OF a1 a2 a3 a4, THEN conjunct2, THEN conjunct1]
  note tb = no_version_abort_iff [OF b1 b2 b3 b4, THEN conjunct1]
  from ta a5
  have a: "(Err, no_version_msg)
       \<notin> set (console (snd (run example_host example_tree (Some ''spec.yaml''))))"
    by (rule_tac notI) (drule iffD1, assumption, erule notE, assumption)
  from tb b5
  have b: "run example_host example_tree (Some ''plain.yaml'') =
        (Returned, \<lparr>fs = example_tree,
                    console = [(Info, ''Starting OpenAPI Stub Generation...''),
                               (Info, ''Getting Version Number...''),
                               (Err, no_version_msg)],
                    calls = []\<rparr>)"
    by (rule iffD2)
  from a1 a2 a3 a4 a b1 b2 b3 b4 b show ?thesis by (intro conjI)
qed

subsection \<open>The composite scripts\<close>

lemma registered:
  assumes "c \<in> set (calls (snd (run env t a)))"
  shows "\<exists>f ls. a = Some f \<and> readLines env t f = Inr ls
           \<and> c \<in> set (concat (map stmt_calls
                   (pipeline f (extname f) (fst (eachLine ls (''0'', []))))))"
proof -
  from assms have "calls (snd (run env t a)) \<noteq> []" by auto
  with run_trace [of env t a] obtain f ls v out k where a: "a = Some f"
    and ls: "readLines env t f = Inr ls" and v: "eachLine ls (''0'', []) = (v, out)"
    and k: "calls (snd (run env t a)) = take k (concat (map stmt_calls (pipeline f (extname f) v)))"
    by blast
  from assms k have "c \<in> set (concat (map stmt_calls (pipeline f (extname f) v)))"
    by (metis in_set_takeD)
  with a ls v show ?thesis by auto
qed

lemma scripts_generate:
  "(''generate'', val) \<in> set (scripts f n) \<Longrightarrow>
     val = ''npm run generate:swagger'' @ '' && '' @ ''npm run generate:docs'' @ '' && ''
           @ ''npm run generate:markdown''"
  by (simp add: scripts_def)

lemma scripts_start:
  \<open>(''start'', val) \<in> set (scripts f n) \<Longrightarrow>
     val = ''concurrently -n swagger,prism,browser "npm run start:swagger" "npm run start:prism" "npm run start:browser"''\<close>
  by (simp add: scripts_def)

lemma start_has_no_and:
  \<open>\<not> includes_str ''concurrently -n swagger,prism,browser "npm run start:swagger" "npm run start:prism" "npm run start:browser"'' ''&&''\<close>
  by (simp add: includes_str_def)

text \<open>
  Claim C2, amended. In every run, the \<^verbatim>\<open>generate\<close> script is registered with its three
  sub-commands chained by \<^verbatim>\<open>&&\<close>; the \<^verbatim>\<open>start\<close> script is registered with a
  \<^verbatim>\<open>concurrently\<close> command that takes its three sub-commands as arguments, with no
  \<^verbatim>\<open>&&\<close> in it.
\<close>

theorem generate_chains_start_runs_concurrently:
  assumes "AddScript key val \<in> set (calls (snd (run env t a)))"
  shows \<open>(key = ''generate'' \<longrightarrow>
            val = ''npm run generate:swagger'' @ '' && '' @ ''npm run generate:docs'' @ '' && ''
                  @ ''npm run generate:markdown'')
         \<and> (key = ''start'' \<longrightarrow>
            val = ''concurrently -n swagger,prism,browser "npm run start:swagger" "npm run start:prism" "npm run start:browser"''
            \<and> \<not> includes_str val ''&&'')\<close>
proof -
  from registered [OF assms] obtain f ls where
    "AddScript key val \<in> set (concat (map stmt_calls
        (pipeline f (extname f) (fst (eachLine ls (''0'', []))))))" by blast
  then have "(key, val) \<in> set (scripts
        (fileNameWithVersion f (extname f) (fst (eachLine ls (''0'', []))))
        (fileNameWithVersionNoExtension f (extname f) (fst (eachLine ls (''0'', [])))))"
    by (rule pipeline_AddScript)
  with scripts_generate scripts_start start_has_no_and show ?thesis by metis
qed

theorem generate_chains_start_runs_concurrently_witness:
  \<open>AddScript ''generate''
      ''npm run generate:swagger && npm run generate:docs && npm run generate:markdown''
     \<in> set (calls (snd (run example_host example_tree (Some ''spec.yaml''))))
   \<and> ''npm run generate:swagger && npm run generate:docs && npm run generate:markdown''
       = ''npm run generate:swagger'' @ '' && '' @ ''npm run generate:docs'' @ '' && ''
         @ ''npm run generate:markdown''
   \<and> includes_str
        ''npm run generate:swagger && npm run generate:docs && npm run generate:markdown'' ''&&''\<close>
proof -
  have h: "AddScript ''generate''
      ''npm run generate:swagger && npm run generate:docs && npm run generate:markdown''
     \<in> set (calls (snd (run example_host example_tree (Some ''spec.yaml''))))"
    using example_run by (simp add: case_prod_unfold scripts_def)
  have i: "includes_str
        ''npm run generate:swagger && npm run generate:docs && npm run generate:markdown'' ''&&''"
    by (simp add: includes_str_def)
  from generate_chains_start_runs_concurrently [OF h] h i show ?thesis by simp
qed

text \<open>The \<^verbatim>\<open>start\<close> script that a concrete run registers has no \<^verbatim>\<open>&&\<close>.\<close>

theorem start_script_counterexample:
  \<open>AddScript ''start''
      ''concurrently -n swagger,prism,browser "npm run start:swagger" "npm run start:prism" "npm run start:browser"''
     \<in> set (calls (snd (run example_host example_tree (Some ''spec.yaml''))))
   \<and> \<not> includes_str
        ''concurrently -n swagger,prism,browser "npm run start:swagger" "npm run start:prism" "npm run start:browser"''
        ''&&''\<close>
  using example_run start_has_no_and by (simp add: case_prod_unfold scripts_def)

subsection \<open>The file name in the copy and in the scripts\<close>

lemma replace_keeps_front:
  assumes "indexOf pat s = Some i" and "n \<le> i"
  shows "prefix (take n s) (replace_str s pat rep)"
proof -
  from assms(2) have "take n s = take n (take i s)" by (simp add: min_def)
  then have "prefix (take n s) (take i s)" by (metis take_is_prefix)
  moreover from assms(1) have "prefix (take i s) (replace_str s pat rep)"
    by (simp add: replace_str_def Let_def)
  ultimately show ?thesis by (rule prefix_order.trans)
qed

lemma scripts_references:
  assumes "(key, val) \<in> set (scripts w n)"
  shows "(key = ''generate:swagger'' \<longrightarrow>
            val = ''npm run delete:swagger && npm run make:swagger && openapi-generator-cli generate -i ''
                  @ ''open-api/'' @ w
                  @ '' -g nodejs-express-server -o swagger-stub --additional-properties=serverPort=9999'')
       \<and> (key = ''generate:docs'' \<longrightarrow>
            val = ''npm run delete:docs && npm run make:docs && openapi-generator-cli generate -i ''
                  @ ''open-api/'' @ w @ '' -g html2 -o html-docs'')
       \<and> (key = ''generate:markdown'' \<longrightarrow>
            (\<exists>rest. val = ''npm run delete:markdown && npm run make:markdown && widdershins ''
                          @ ''open-api/'' @ w @ rest))
       \<and> (key = ''start:prism'' \<longrightarrow> val = ''prism mock '' @ ''open-api/'' @ w)"
  using assms by (auto simp add: scripts_def)

text \<open>
  What every run does: the copy goes to \<^verbatim>\<open>api-spec/<version>/open-api/\<close> followed by the
  \<^verbatim>\<open>-f\<close> value as it was given, and each script that refers to \<^verbatim>\<open>open-api/\<close> refers to
  what line 62 makes of that value.
\<close>

lemma copy_destination_and_script_references:
  assumes "c \<in> set (calls (snd (run env t a)))"
  shows "(\<exists>f ls v w. a = Some f \<and> readLines env t f = Inr ls
            \<and> v = fst (eachLine ls (''0'', []))
            \<and> w = replace_str f (extname f) (''-'' @ v @ extname f)
            \<and> (\<forall>src dst. c = CopyFile src dst \<longrightarrow>
                  src = f \<and> dst = ''api-spec/'' @ v @ ''/open-api/'' @ f)
            \<and> (\<forall>val. c = AddScript ''generate:swagger'' val \<longrightarrow>
                  val = ''npm run delete:swagger && npm run make:swagger && openapi-generator-cli generate -i ''
                        @ ''open-api/'' @ w
                        @ '' -g nodejs-express-server -o swagger-stub --additional-properties=serverPort=9999'')
            \<and> (\<forall>val. c = AddScript ''generate:docs'' val \<longrightarrow>
                  val = ''npm run delete:docs && npm run make:docs && openapi-generator-cli generate -i ''
                        @ ''open-api/'' @ w @ '' -g html2 -o html-docs'')
            \<and> (\<forall>val. c = AddScript ''generate:markdown'' val \<longrightarrow>
                  (\<exists>rest. val = ''npm run delete:markdown && npm run make:markdown && widdershins ''
                                @ ''open-api/'' @ w @ rest))
            \<and> (\<forall>val. c = AddScript ''start:prism'' val \<longrightarrow>
                  val = ''prism mock '' @ ''open-api/'' @ w))
         \<and> (\<forall>f v d b i. f = d @ ''/'' @ b \<and> indexOf (extname f) f = Some i \<and> length d < i
               \<longrightarrow> prefix (d @ ''/'') (replace_str f (extname f) (''-'' @ v @ extname f)))"
proof -
  from registered [OF assms] obtain f ls where a: "a = Some f"
    and ls: "readLines env t f = Inr ls"
    and c: "c \<in> set (concat (map stmt_calls
                   (pipeline f (extname f) (fst (eachLine ls (''0'', []))))))"
    by blast
  let ?v = "fst (eachLine ls (''0'', []))"
  let ?w = "replace_str f (extname f) (''-'' @ ?v @ extname f)"
  have w: "fileNameWithVersion f (extname f) ?v = ?w" by (simp add: fileNameWithVersion_def)
  have copy: "\<forall>src dst. c = CopyFile src dst \<longrightarrow>
                  src = f \<and> dst = ''api-spec/'' @ ?v @ ''/open-api/'' @ f"
    using c pipeline_CopyFile by blast
  have reg: "(key, val) \<in> set (scripts ?w (fileNameWithVersionNoExtension f (extname f) ?v))"
    if "c = AddScript key val" for key val
    using that c pipeline_AddScript [of key val f "extname f" ?v] unfolding w by simp
  have refs: "(key = ''generate:swagger'' \<longrightarrow>
            val = ''npm run delete:swagger && npm run make:swagger && openapi-generator-cli generate -i ''
                  @ ''open-api/'' @ ?w
                  @ '' -g nodejs-express-server -o swagger-stub --additional-properties=serverPort=9999'')
       \<and> (key = ''generate:docs'' \<longrightarrow>
            val = ''npm run delete:docs && npm run make:docs && openapi-generator-cli generate -i ''
                  @ ''open-api/'' @ ?w @ '' -g html2 -o html-docs'')
       \<and> (key = ''generate:markdown'' \<longrightarrow>
            (\<exists>rest. val = ''npm run delete:markdown && npm run make:markdown && widdershins ''
                          @ ''open-api/'' @ ?w @ rest))
       \<and> (key = ''start:prism'' \<longrightarrow> val = ''prism mock '' @ ''open-api/'' @ ?w)"
    if "c = AddScript key val" for key val
    using reg [OF that] by (rule scripts_references)
  have s1: "\<forall>val. c = AddScript ''generate:swagger'' val \<longrightarrow>
                  val = ''npm run delete:swagger && npm run make:swagger && openapi-generator-cli generate -i ''
                        @ ''open-api/'' @ ?w
                        @ '' -g nodejs-express-server -o swagger-stub --additional-properties=serverPort=9999''"
  proof (intro allI impI)
    fix val assume "c = AddScript ''generate:swagger'' val"
    from refs [OF this] show "val = ''npm run delete:swagger && npm run make:swagger && openapi-generator-cli generate -i ''
                        @ ''open-api/'' @ ?w
                        @ '' -g nodejs-express-server -o swagger-stub --additional-properties=serverPort=9999''"
      by (elim conjE) (erule mp, rule refl)
  qed
  have s2: "\<forall>val. c = AddScript ''generate:docs'' val \<longrightarrow>
                  val = ''npm run delete:docs && npm run make:docs && openapi-generator-cli generate -i ''
                        @ ''open-api/'' @ ?w @ '' -g html2 -o html-docs''"
  proof (intro allI impI)
    fix val assume "c = AddScript ''generate:docs'' val"
    from refs [OF this] show "val = ''npm run delete:docs && npm run make:docs && openapi-generator-cli generate -i ''
                        @ ''open-api/'' @ ?w @ '' -g html2 -o html-docs''"
      by (elim conjE) (erule mp, rule refl)
  qed
  have s3: "\<forall>val. c = AddScript ''generate:markdown'' val \<longrightarrow>
                  (\<exists>rest. val = ''npm run delete:markdown && npm run make:markdown && widdershins ''
                                @ ''open-api/'' @ ?w @ rest)"
  proof (intro allI impI)
    fix val assume "c = AddScript ''generate:markdown'' val"
    from refs [OF this] show "\<exists>rest. val = ''npm run delete:markdown && npm run make:markdown && widdershins ''
                                @ ''open-api/'' @ ?w @ rest"
      by (elim conjE) (erule mp, rule refl)
  qed
  have s4: "\<forall>val. c = AddScript ''start:prism'' val \<longrightarrow>
                  val = ''prism mock '' @ ''open-api/'' @ ?w"
  proof (intro allI impI)
    fix val assume "c = AddScript ''start:prism'' val"
    from refs [OF this] show "val = ''prism mock '' @ ''open-api/'' @ ?w"
      by (elim conjE) (erule mp, rule refl)
  qed
  have dirs: "prefix (d @ ''/'') (replace_str g (extname g) (''-'' @ v @ extname g))"
    if "g = d @ ''/'' @ b" and "indexOf (extname g) g = Some i" and "length d < i"
    for g v d b i
  proof -
    from that(3) have "Suc (length d) \<le> i" by simp
    from replace_keeps_front [OF that(2) this]
    show ?thesis unfolding that(1) by simp
  qed
  have run_part: "\<exists>f ls v w. a = Some f \<and> readLines env t f = Inr ls
            \<and> v = fst (eachLine ls (''0'', []))
            \<and> w = replace_str f (extname f) (''-'' @ v @ extname f)
            \<and> (\<forall>src dst. c = CopyFile src dst \<longrightarrow>
                  src = f \<and> dst = ''api-spec/'' @ v @ ''/open-api/'' @ f)
            \<and> (\<forall>val. c = AddScript ''generate:swagger'' val \<longrightarrow>
                  val = ''npm run delete:swagger && npm run make:swagger && openapi-generator-cli generate -i ''
                        @ ''open-api/'' @ w
                        @ '' -g nodejs-express-server -o swagger-stub --additional-properties=serverPort=9999'')
            \<and> (\<forall>val. c = AddScript ''generate:docs'' val \<longrightarrow>
                  val = ''npm run delete:docs && npm run make:docs && openapi-generator-cli generate -i ''
                        @ ''open-api/'' @ w @ '' -g html2 -o html-docs'')
            \<and> (\<forall>val. c = AddScript ''generate:markdown'' val \<longrightarrow>
                  (\<exists>rest. val = ''npm run delete:markdown && npm run make:markdown && widdershins ''
                                @ ''open-api/'' @ w @ rest))
            \<and> (\<forall>val. c = AddScript ''start:prism'' val \<longrightarrow>
                  val = ''prism mock '' @ ''open-api/'' @ w)"
    apply (rule exI [of _ f])
    apply (rule exI [of _ ls])
    apply (rule exI [of _ ?v])
    apply (rule exI [of _ ?w])
    using a ls copy s1 s2 s3 s4 by (intro conjI) (assumption | rule refl)+
  have pure_part: "\<forall>f v d b i. f = d @ ''/'' @ b \<and> indexOf (extname f) f = Some i \<and> length d < i
               \<longrightarrow> prefix (d @ ''/'') (replace_str f (extname f) (''-'' @ v @ extname f))"
    using dirs by (intro allI impI) (elim conjE)
  from run_part pure_part show ?thesis by (rule conjI)

qed

text \<open>
  Claim C10. The directory components of the \<^verbatim>\<open>-f\<close> value should stand in the copy
  destination and in every script's \<^verbatim>\<open>open-api/\<close> reference. In the run below the value is
  \<^verbatim>\<open>a.yml/b.yml\<close>: the copy destination keeps the directory \<^verbatim>\<open>a.yml\<close>, but line 62
  replaces the first occurrence of the extension, which is in the directory name, so the
  scripts refer to \<^verbatim>\<open>open-api/a-v1.yml/b.yml\<close>.
\<close>

theorem script_reference_changes_directory:
  "AddScript ''start:prism'' ''prism mock open-api/a-v1.yml/b.yml''
     \<in> set (calls (snd (run example_host example_tree (Some ''a.yml/b.yml''))))
   \<and> CopyFile ''a.yml/b.yml'' ''api-spec/v1/open-api/a.yml/b.yml''
     \<in> set (calls (snd (run example_host example_tree (Some ''a.yml/b.yml''))))
   \<and> \<not> includes_str ''prism mock open-api/a-v1.yml/b.yml'' ''open-api/a.yml/''"
proof -
  have "\<not> includes_str ''prism mock open-api/a-v1.yml/b.yml'' ''open-api/a.yml/''"
    by (simp add: includes_str_def)
  with nested_run show ?thesis by (simp add: case_prod_unfold scripts_def)
qed

subsection \<open>The relocation\<close>

text \<open>
  In every run the rename takes its old path from \<^verbatim>\<open>ozpen-api\<close>, while the copy before
  it wrote below \<^verbatim>\<open>open-api\<close>.
\<close>

lemma install_calls_are_not_renames:
  "c \<in> set (concat (map stmt_calls (install_and_generate v))) \<Longrightarrow> c \<noteq> Rename src dst"
  by (auto simp add: install_and_generate_def)

lemma pipeline_Rename:
  "Rename src dst \<in> set (concat (map stmt_calls (pipeline f x v))) \<Longrightarrow>
     src = ''api-spec/'' @ v @ ''/ozpen-api/'' @ f
     \<and> dst = ''api-spec/'' @ v @ ''/open-api/'' @ fileNameWithVersion f x v"
  unfolding pipeline_calls using install_calls_are_not_renames [of "Rename src dst" v src dst]
  by auto

lemma rename_reads_from_misspelled_directory:
  assumes "Rename src dst \<in> set (calls (snd (run env t a)))"
  shows "\<exists>f ls. a = Some f \<and> readLines env t f = Inr ls
           \<and> src = ''api-spec/'' @ fst (eachLine ls (''0'', [])) @ ''/ozpen-api/'' @ f"
proof -
  from registered [OF assms] obtain f ls where a: "a = Some f"
    and ls: "readLines env t f = Inr ls"
    and c: "Rename src dst \<in> set (concat (map stmt_calls
                   (pipeline f (extname f) (fst (eachLine ls (''0'', []))))))"
    by blast
  from pipeline_Rename [OF c] a ls show ?thesis by blast
qed

text \<open>
  Claim C1. After a run, \<^verbatim>\<open>api-spec/<version>/open-api/\<close> should hold exactly one file,
  named \<^verbatim>\<open><stem>-<version><ext>\<close>, with the contents of the input. In the run below the
  rename of line 115 takes its old path from \<^verbatim>\<open>ozpen-api\<close>, which does not exist: the
  promise rejects with \<^verbatim>\<open>ENOENT\<close>, the copy keeps its original name, and the manifest is
  not moved.
\<close>

theorem rename_from_misspelled_directory_fails:
  "fst (run example_host example_tree (Some ''spec.yaml'')) = Rejected ENOENT
   \<and> last (calls (snd (run example_host example_tree (Some ''spec.yaml''))))
       = Rename ''api-spec/v2-0-0/ozpen-api/spec.yaml'' ''api-spec/v2-0-0/open-api/spec-v2-0-0.yaml''
   \<and> remdups (filter (\<lambda>p. butlast p = [''work'', ''api-spec'', ''v2-0-0'', ''open-api''])
                (map fst (fs (snd (run example_host example_tree (Some ''spec.yaml''))))))
       = [[''work'', ''api-spec'', ''v2-0-0'', ''open-api'', ''spec.yaml'']]
   \<and> map_of (fs (snd (run example_host example_tree (Some ''spec.yaml''))))
         [''work'', ''api-spec'', ''v2-0-0'', ''open-api'', ''spec.yaml'']
       = map_of example_tree [''work'', ''spec.yaml'']
   \<and> map_of (fs (snd (run example_host example_tree (Some ''spec.yaml''))))
         [''work'', ''api-spec'', ''v2-0-0'', ''open-api'', ''spec-v2-0-0.yaml''] = None
   \<and> map_of (fs (snd (run example_host example_tree (Some ''spec.yaml''))))
         [''work'', ''api-spec'', ''v2-0-0'', ''package.json''] = None
   \<and> map_of (fs (snd (run example_host example_tree (Some ''spec.yaml''))))
         [''work'', ''package.json''] \<noteq> None"
  using example_run by (simp add: case_prod_unfold)

end
